theory Spec2Isabelle
  imports Complex_Main "HOL-Library.Log_Nat"
begin

section \<open>The TRI engine (tri\_engine.py) in exact arithmetic\<close>

text \<open>
  The engine is embedded twice. In the exact reading, which comes first, Python floats and
  numpy float64 values are real numbers and every operation is exact; the special values
  that numpy's logarithm and mean return on real arguments (minus infinity at 0, NaN
  below 0 and on an empty array) are kept, as the type \<open>npfloat\<close>. What the code
  computes as a formula is stated in this reading: the coherence rule, the sum that the
  log-posterior is, the fallback of the estimator, the sorting step. In the binary64
  reading, which follows, every operation rounds and may overflow, as the program's do;
  the values of the curve and of the score and the finiteness of the log-posterior are
  stated in that reading. One-dimensional numpy arrays are lists; exceptions are values of
  the type \<open>error\<close>.
\<close>

datatype error = ValueError | IndexError

datatype npfloat = Finite real | PosInf | NegInf | NaN

subsection \<open>The engine and its configuration\<close>

record TRIEngine =
  mean_scale :: real
  std_scale :: real

text \<open>\<open>__init__(self, mean_scale=500, std_scale=100)\<close>\<close>

definition TRIEngine_init :: "real \<Rightarrow> real \<Rightarrow> TRIEngine" where
  "TRIEngine_init m s = \<lparr>mean_scale = m, std_scale = s\<rparr>"

definition TRIEngine_default :: TRIEngine where
  "TRIEngine_default = TRIEngine_init 500 100"

subsection \<open>The 3PL curve\<close>


subsection \<open>numpy on one-dimensional arrays\<close>

text \<open>
  An elementwise binary operation broadcasts: arrays of equal length are combined
  index by index, an array of length 1 is stretched to the other's length, and any other
  pair of lengths raises ValueError.
\<close>

definition np_binop :: "('a \<Rightarrow> 'b \<Rightarrow> 'c) \<Rightarrow> 'a list \<Rightarrow> 'b list \<Rightarrow> error + 'c list" where
  "np_binop f xs ys =
     (if length xs = length ys then Inr (map2 f xs ys)
      else if length xs = 1 then Inr (map (f (hd xs)) ys)
      else if length ys = 1 then Inr (map (\<lambda>x. f x (hd ys)) xs)
      else Inl ValueError)"

text \<open>\<open>np.clip(p, lo, hi)\<close> is \<open>minimum(hi, maximum(p, lo))\<close>.\<close>

definition np_clip :: "real \<Rightarrow> real \<Rightarrow> real \<Rightarrow> real" where
  "np_clip p lo hi = min hi (max p lo)"

text \<open>\<open>np.log\<close>: minus infinity at 0 and NaN below 0, with a warning and no exception.\<close>

definition np_log :: "real \<Rightarrow> npfloat" where
  "np_log v = (if 0 < v then Finite (ln v) else if v = 0 then NegInf else NaN)"

fun fneg :: "npfloat \<Rightarrow> npfloat" where
  "fneg (Finite v) = Finite (- v)"
| "fneg PosInf = NegInf"
| "fneg NegInf = PosInf"
| "fneg NaN = NaN"

fun fadd :: "npfloat \<Rightarrow> npfloat \<Rightarrow> npfloat" where
  "fadd (Finite v) (Finite w) = Finite (v + w)"
| "fadd NaN _ = NaN"
| "fadd _ NaN = NaN"
| "fadd PosInf NegInf = NaN"
| "fadd NegInf PosInf = NaN"
| "fadd PosInf _ = PosInf"
| "fadd _ PosInf = PosInf"
| "fadd NegInf _ = NegInf"
| "fadd _ NegInf = NegInf"

definition inf_of_sign :: "real \<Rightarrow> npfloat" where
  "inf_of_sign v = (if v = 0 then NaN else if 0 < v then PosInf else NegInf)"

fun fmul :: "npfloat \<Rightarrow> npfloat \<Rightarrow> npfloat" where
  "fmul (Finite v) (Finite w) = Finite (v * w)"
| "fmul NaN _ = NaN"
| "fmul _ NaN = NaN"
| "fmul (Finite v) PosInf = inf_of_sign v"
| "fmul (Finite v) NegInf = inf_of_sign (- v)"
| "fmul PosInf (Finite w) = inf_of_sign w"
| "fmul NegInf (Finite w) = inf_of_sign (- w)"
| "fmul PosInf PosInf = PosInf"
| "fmul NegInf NegInf = PosInf"
| "fmul PosInf NegInf = NegInf"
| "fmul NegInf PosInf = NegInf"

text \<open>A comparison with NaN is false.\<close>

fun fless :: "npfloat \<Rightarrow> npfloat \<Rightarrow> bool" where
  "fless (Finite v) (Finite w) = (v < w)"
| "fless NaN _ = False"
| "fless _ NaN = False"
| "fless NegInf NegInf = False"
| "fless NegInf _ = True"
| "fless _ NegInf = False"
| "fless PosInf _ = False"
| "fless _ PosInf = True"

text \<open>\<open>np.sum\<close> of an array; the empty sum is 0.\<close>

definition np_sum :: "npfloat list \<Rightarrow> npfloat" where
  "np_sum xs = foldl fadd (Finite 0) xs"

text \<open>\<open>np.mean\<close> of an integer array; NaN on the empty array.\<close>

definition np_mean :: "int list \<Rightarrow> npfloat" where
  "np_mean xs = (if xs = [] then NaN else Finite (real_of_int (sum_list xs) / real (length xs)))"

definition np_any :: "bool list \<Rightarrow> bool" where
  "np_any ms = list_ex (\<lambda>m. m) ms"

text \<open>
  \<open>np.argsort\<close>: the indices that sort the array. Ties are listed in index order here;
  numpy's default sort leaves their order open, and nothing below depends on it.
\<close>

definition np_argsort :: "real list \<Rightarrow> nat list" where
  "np_argsort bs = map snd (sort_key fst (zip bs [0..<length bs]))"

text \<open>Indexing by an index array: IndexError when an index is out of bounds.\<close>

definition np_take :: "'a list \<Rightarrow> nat list \<Rightarrow> error + 'a list" where
  "np_take xs idx =
     (if list_all (\<lambda>i. i < length xs) idx then Inr (map (\<lambda>i. xs ! i) idx)
      else Inl IndexError)"

text \<open>Indexing by a boolean mask: IndexError when the mask's length is not the array's.\<close>

definition np_mask :: "'a list \<Rightarrow> bool list \<Rightarrow> error + 'a list" where
  "np_mask xs ms =
     (if length ms = length xs then Inr (map fst (filter snd (zip xs ms)))
      else Inl IndexError)"

text \<open>
  \<open>round(theta, 4)\<close>: to the nearest multiple of \<open>10 ^ -n\<close>, a tie going to the even
  neighbour.
\<close>

definition round_half_even :: "real \<Rightarrow> int" where
  "round_half_even s =
     (let f = \<lfloor>s\<rfloor>; d = s - of_int f
      in if d < 1 / 2 then f else if 1 / 2 < d then f + 1
         else if even f then f else f + 1)"

definition py_round :: "real \<Rightarrow> nat \<Rightarrow> real" where
  "py_round v n = of_int (round_half_even (v * 10 ^ n)) / 10 ^ n"

subsection \<open>The 3PL curve on arrays\<close>

text \<open>
  The same expression with \<open>theta\<close> a scalar and \<open>a\<close>, \<open>b\<close>, \<open>c\<close> arrays, as
  \<open>log_posterior\<close> calls it: each operator is elementwise and broadcasts.
\<close>

definition logistic_3pl_vec :: "real \<Rightarrow> real list \<Rightarrow> real list \<Rightarrow> real list \<Rightarrow> error + real list" where
  "logistic_3pl_vec theta params_a params_b params_c =
     (case np_binop (*) (map uminus params_a) (map (\<lambda>b. theta - b) params_b) of
        Inl e \<Rightarrow> Inl e
      | Inr z \<Rightarrow>
          (case np_binop (/) (map (\<lambda>c. 1 - c) params_c) (map (\<lambda>v. 1 + exp v) z) of
             Inl e \<Rightarrow> Inl e
           | Inr q \<Rightarrow> np_binop (+) params_c q))"

subsection \<open>The log-posterior\<close>

text \<open>
  \<open>p = self.logistic_3pl(theta, params_a, params_b, params_c)\<close>,
  \<open>p = np.clip(p, 1e-10, 1 - 1e-10)\<close>,
  \<open>log_l = np.sum(responses * np.log(p) + (1 - responses) * np.log(1 - p))\<close>,
  \<open>log_prior = -0.5 * (theta**2)\<close>, \<open>return log_l + log_prior\<close>.
\<close>

definition log_posterior :: "real \<Rightarrow> int list \<Rightarrow> real list \<Rightarrow> real list \<Rightarrow> real list \<Rightarrow> error + npfloat" where
  "log_posterior theta responses params_a params_b params_c =
     (case logistic_3pl_vec theta params_a params_b params_c of
        Inl e \<Rightarrow> Inl e
      | Inr p0 \<Rightarrow>
          (let p = map (\<lambda>v. np_clip v (1 / 10 ^ 10) (1 - 1 / 10 ^ 10)) p0
           in case np_binop fmul (map (\<lambda>r. Finite (real_of_int r)) responses) (map np_log p) of
                Inl e \<Rightarrow> Inl e
              | Inr hit \<Rightarrow>
                  (case np_binop fmul (map (\<lambda>r. Finite (real_of_int (1 - r))) responses)
                          (map (\<lambda>v. np_log (1 - v)) p) of
                     Inl e \<Rightarrow> Inl e
                   | Inr miss \<Rightarrow>
                       (case np_binop fadd hit miss of
                          Inl e \<Rightarrow> Inl e
                        | Inr terms \<Rightarrow>
                            (let log_l = np_sum terms;
                                 log_prior = Finite (- (1 / 2) * theta ^ 2)
                             in Inr (fadd log_l log_prior))))))"

subsection \<open>The MAP estimate\<close>

text \<open>
  \<open>scipy.optimize.minimize\<close> is library code: it is a parameter of the model. It is
  given the objective and the starting point, and the state \<open>'w\<close> of whatever it reads
  besides them; it returns an exception or a result object, of which the engine reads the
  fields \<open>x\<close> and \<open>success\<close>, and the next state.
\<close>

record OptimizeResult =
  opt_x :: "npfloat list"
  opt_success :: bool

type_synonym 'w minimizer =
  "'w \<Rightarrow> (real \<Rightarrow> error + npfloat) \<Rightarrow> real \<Rightarrow> (error + OptimizeResult) \<times> 'w"

text \<open>
  \<open>objective = lambda t: -self.log_posterior(t, responses, params_a, params_b, params_c)\<close>
\<close>

definition objective :: "int list \<Rightarrow> real list \<Rightarrow> real list \<Rightarrow> real list \<Rightarrow> real \<Rightarrow> error + npfloat" where
  "objective responses params_a params_b params_c =
     (\<lambda>t. case log_posterior t responses params_a params_b params_c of
             Inl e \<Rightarrow> Inl e
           | Inr v \<Rightarrow> Inr (fneg v))"

text \<open>
  \<open>initial_theta = 0.0\<close>, \<open>result = minimize(objective, initial_theta, method='BFGS')\<close>,
  \<open>return result.x[0] if result.success else initial_theta\<close>.
\<close>

definition estimate_theta ::
  "'w minimizer \<Rightarrow> 'w \<Rightarrow> int list \<Rightarrow> real list \<Rightarrow> real list \<Rightarrow> real list \<Rightarrow> (error + npfloat) \<times> 'w" where
  "estimate_theta minimize w responses params_a params_b params_c =
     (let initial_theta = 0
      in case minimize w (objective responses params_a params_b params_c) initial_theta of
           (Inl e, w') \<Rightarrow> (Inl e, w')
         | (Inr result, w') \<Rightarrow>
             (if opt_success result
              then (case opt_x result of [] \<Rightarrow> Inl IndexError | v # _ \<Rightarrow> Inr v, w')
              else (Inr (Finite initial_theta), w')))"

subsection \<open>The coherence analysis\<close>

text \<open>
  \<open>_check_coherence\<close> (an Isabelle name cannot start with an underscore):
  \<open>easy_items_mask = params_b < (theta - 1.0)\<close>; if any item is easy, the accuracy on
  the easy items below 0.5 gives False; True otherwise.
\<close>

definition check_coherence :: "real \<Rightarrow> int list \<Rightarrow> real list \<Rightarrow> error + bool" where
  "check_coherence theta responses params_b =
     (let easy_items_mask = map (\<lambda>b. b < theta - 1) params_b
      in if np_any easy_items_mask
         then (case np_mask responses easy_items_mask of
                 Inl e \<Rightarrow> Inl e
               | Inr easy_responses \<Rightarrow>
                   (let accuracy_easy = np_mean easy_responses
                    in if fless accuracy_easy (Finite (1 / 2)) then Inr False else Inr True))
         else Inr True)"

record Analysis =
  total_acertos :: int
  theta_estimado :: real
  coerencia :: string

text \<open>
  \<open>analyze_consistency\<close>: the items are sorted by difficulty first
  (\<open>sorted_indices\<close>, \<open>sorted_responses\<close>, \<open>sorted_diffs\<close>), then the dictionary is
  built from the arrays as they were passed.
\<close>

definition analyze_consistency :: "real \<Rightarrow> int list \<Rightarrow> real list \<Rightarrow> error + Analysis" where
  "analyze_consistency theta responses params_b =
     (let sorted_indices = np_argsort params_b
      in case np_take responses sorted_indices of
           Inl e \<Rightarrow> Inl e
         | Inr sorted_responses \<Rightarrow>
             (case np_take params_b sorted_indices of
                Inl e \<Rightarrow> Inl e
              | Inr sorted_diffs \<Rightarrow>
                  (case check_coherence theta responses params_b of
                     Inl e \<Rightarrow> Inl e
                   | Inr coherent \<Rightarrow>
                       Inr \<lparr>total_acertos = sum_list responses,
                            theta_estimado = py_round theta 4,
                            coerencia = (if coherent then ''Alta'' else ''Baixa'')\<rparr>)))"

text \<open>The same function with the three lines of the sorting step removed.\<close>

definition analyze_consistency_unsorted :: "real \<Rightarrow> int list \<Rightarrow> real list \<Rightarrow> error + Analysis" where
  "analyze_consistency_unsorted theta responses params_b =
     (case check_coherence theta responses params_b of
        Inl e \<Rightarrow> Inl e
      | Inr coherent \<Rightarrow>
          Inr \<lparr>total_acertos = sum_list responses,
               theta_estimado = py_round theta 4,
               coerencia = (if coherent then ''Alta'' else ''Baixa'')\<rparr>)"

subsection \<open>The rules as the specification words them\<close>





section \<open>The engine in binary64 arithmetic\<close>

text \<open>
  The program computes in IEEE 754 binary64. Here every arithmetic result is rounded to
  the nearest double, a tie going to the even mantissa; a result that rounds to
  \<open>2 ^ 1024\<close> or beyond is an infinity; the infinities and NaN combine as the standard
  prescribes. The functions take real arguments, so every finite double is an argument,
  and return an \<open>npfloat\<close>. Three things are left out: the sign of zero (the engine
  divides by \<open>1 + exp(...)\<close> and by nothing else), the warnings numpy prints, and the rounding
  of numpy's \<open>exp\<close> and \<open>log\<close>, which are taken to round correctly as the four operations
  do.
\<close>

subsection \<open>Rounding to the nearest double\<close>

text \<open>\<open>pow2 q\<close> is 2 to the power \<open>q\<close>, for an integer \<open>q\<close> of either sign.\<close>

definition pow2 :: "int \<Rightarrow> real" where
  "pow2 q = (if 0 \<le> q then 2 ^ nat q else 1 / 2 ^ nat (- q))"

text \<open>
  The binade of a non-zero \<open>x\<close>: the integer \<open>e\<close> with \<open>2 ^ e \<le> |x| < 2 ^ (e + 1)\<close>,
  read off the bit length of the integer part of \<open>|x|\<close> or of its inverse.
\<close>

definition binade :: "real \<Rightarrow> int" where
  "binade x = (if 1 \<le> \<bar>x\<bar> then bitlen \<lfloor>\<bar>x\<bar>\<rfloor> - 1 else - bitlen (\<lceil>1 / \<bar>x\<bar>\<rceil> - 1))"

text \<open>
  The doubles around \<open>x\<close> are the multiples of \<open>2 ^ (e - 52)\<close>, or of \<open>2 ^ -1074\<close>
  among the subnormal numbers.
\<close>

definition grid_exp :: "real \<Rightarrow> int" where
  "grid_exp x = max (binade x - 52) (- 1074)"

definition round_to_grid :: "real \<Rightarrow> real" where
  "round_to_grid x =
     (if x = 0 then 0
      else (let q = grid_exp x
            in of_int (round_half_even (x / pow2 q)) * pow2 q))"

text \<open>The largest finite double, and the least magnitude that rounds to an infinity.\<close>

definition max_double :: real where
  "max_double = 2 ^ 1024 - 2 ^ 971"

definition overflow_bound :: real where
  "overflow_bound = 2 ^ 1024 - 2 ^ 970"

definition rnd64 :: "real \<Rightarrow> npfloat" where
  "rnd64 x =
     (let y = round_to_grid x
      in if 2 ^ 1024 \<le> \<bar>y\<bar> then (if 0 < y then PosInf else NegInf) else Finite y)"

subsection \<open>The operations\<close>

fun add64 :: "npfloat \<Rightarrow> npfloat \<Rightarrow> npfloat" where
  "add64 (Finite v) (Finite w) = rnd64 (v + w)"
| "add64 NaN _ = NaN"
| "add64 _ NaN = NaN"
| "add64 PosInf NegInf = NaN"
| "add64 NegInf PosInf = NaN"
| "add64 PosInf _ = PosInf"
| "add64 _ PosInf = PosInf"
| "add64 NegInf _ = NegInf"
| "add64 _ NegInf = NegInf"

definition sub64 :: "npfloat \<Rightarrow> npfloat \<Rightarrow> npfloat" where
  "sub64 v w = add64 v (fneg w)"

fun mul64 :: "npfloat \<Rightarrow> npfloat \<Rightarrow> npfloat" where
  "mul64 (Finite v) (Finite w) = rnd64 (v * w)"
| "mul64 NaN _ = NaN"
| "mul64 _ NaN = NaN"
| "mul64 (Finite v) PosInf = inf_of_sign v"
| "mul64 (Finite v) NegInf = inf_of_sign (- v)"
| "mul64 PosInf (Finite w) = inf_of_sign w"
| "mul64 NegInf (Finite w) = inf_of_sign (- w)"
| "mul64 PosInf PosInf = PosInf"
| "mul64 NegInf NegInf = PosInf"
| "mul64 PosInf NegInf = NegInf"
| "mul64 NegInf PosInf = NegInf"

text \<open>A finite value divided by zero is an infinity of its sign, zero by zero is NaN.\<close>

fun div64 :: "npfloat \<Rightarrow> npfloat \<Rightarrow> npfloat" where
  "div64 (Finite v) (Finite w) = (if w = 0 then inf_of_sign v else rnd64 (v / w))"
| "div64 NaN _ = NaN"
| "div64 _ NaN = NaN"
| "div64 (Finite v) PosInf = Finite 0"
| "div64 (Finite v) NegInf = Finite 0"
| "div64 PosInf (Finite w) = (if 0 \<le> w then PosInf else NegInf)"
| "div64 NegInf (Finite w) = (if 0 \<le> w then NegInf else PosInf)"
| "div64 PosInf PosInf = NaN"
| "div64 NegInf NegInf = NaN"
| "div64 PosInf NegInf = NaN"
| "div64 NegInf PosInf = NaN"

fun exp64 :: "npfloat \<Rightarrow> npfloat" where
  "exp64 (Finite v) = rnd64 (exp v)"
| "exp64 PosInf = PosInf"
| "exp64 NegInf = Finite 0"
| "exp64 NaN = NaN"

fun log64 :: "npfloat \<Rightarrow> npfloat" where
  "log64 (Finite v) = (if 0 < v then rnd64 (ln v) else if v = 0 then NegInf else NaN)"
| "log64 PosInf = PosInf"
| "log64 NegInf = NaN"
| "log64 NaN = NaN"

text \<open>The order of the values other than NaN.\<close>

fun fle :: "npfloat \<Rightarrow> npfloat \<Rightarrow> bool" where
  "fle (Finite v) (Finite w) = (v \<le> w)"
| "fle NaN _ = False"
| "fle _ NaN = False"
| "fle NegInf _ = True"
| "fle _ PosInf = True"
| "fle PosInf _ = False"
| "fle _ NegInf = False"

text \<open>\<open>np.maximum\<close> and \<open>np.minimum\<close> propagate NaN; \<open>np.clip\<close> is the one after the other.\<close>

fun fmax64 :: "npfloat \<Rightarrow> npfloat \<Rightarrow> npfloat" where
  "fmax64 NaN _ = NaN"
| "fmax64 _ NaN = NaN"
| "fmax64 x y = (if fle x y then y else x)"

fun fmin64 :: "npfloat \<Rightarrow> npfloat \<Rightarrow> npfloat" where
  "fmin64 NaN _ = NaN"
| "fmin64 _ NaN = NaN"
| "fmin64 x y = (if fle x y then x else y)"

definition clip64 :: "npfloat \<Rightarrow> npfloat \<Rightarrow> npfloat \<Rightarrow> npfloat" where
  "clip64 p lo hi = fmin64 (fmax64 p lo) hi"

text \<open>
  \<open>np.sum\<close>. numpy adds the terms of a long array in blocks; here they are added one by
  one from left to right, starting from 0.
\<close>

definition sum64 :: "npfloat list \<Rightarrow> npfloat" where
  "sum64 xs = foldl add64 (Finite 0) xs"

subsection \<open>The curve, the log-posterior and the score\<close>

text \<open>\<open>return c + (1 - c) / (1 + np.exp(-a * (theta - b)))\<close>\<close>

definition logistic_3pl_f64 :: "real \<Rightarrow> real \<Rightarrow> real \<Rightarrow> real \<Rightarrow> npfloat" where
  "logistic_3pl_f64 theta a b c =
     add64 (Finite c)
       (div64 (sub64 (Finite 1) (Finite c))
          (add64 (Finite 1) (exp64 (mul64 (Finite (- a)) (sub64 (Finite theta) (Finite b))))))"

definition logistic_3pl_vec_f64 :: "real \<Rightarrow> real list \<Rightarrow> real list \<Rightarrow> real list \<Rightarrow> error + npfloat list" where
  "logistic_3pl_vec_f64 theta params_a params_b params_c =
     (case np_binop mul64 (map (\<lambda>a. Finite (- a)) params_a)
             (map (\<lambda>b. sub64 (Finite theta) (Finite b)) params_b) of
        Inl e \<Rightarrow> Inl e
      | Inr z \<Rightarrow>
          (case np_binop div64 (map (\<lambda>c. sub64 (Finite 1) (Finite c)) params_c)
                  (map (\<lambda>v. add64 (Finite 1) (exp64 v)) z) of
             Inl e \<Rightarrow> Inl e
           | Inr q \<Rightarrow> np_binop add64 (map Finite params_c) q))"

text \<open>
  The bounds of the clip are the double nearest to \<open>1e-10\<close> and the double the
  subtraction \<open>1 - 1e-10\<close> returns.
\<close>

definition clip_lo :: npfloat where
  "clip_lo = rnd64 (1 / 10 ^ 10)"

definition clip_hi :: npfloat where
  "clip_hi = sub64 (Finite 1) clip_lo"

text \<open>
  \<open>log_posterior\<close>, line by line as above. The responses, an integer array, are converted
  to doubles by the products; \<open>theta\<close> is a numpy value, as the optimizer passes it, so
  that \<open>theta**2\<close> is a product that may overflow to an infinity.
\<close>

definition log_posterior_f64 :: "real \<Rightarrow> int list \<Rightarrow> real list \<Rightarrow> real list \<Rightarrow> real list \<Rightarrow> error + npfloat" where
  "log_posterior_f64 theta responses params_a params_b params_c =
     (case logistic_3pl_vec_f64 theta params_a params_b params_c of
        Inl e \<Rightarrow> Inl e
      | Inr p0 \<Rightarrow>
          (let p = map (\<lambda>v. clip64 v clip_lo clip_hi) p0
           in case np_binop mul64 (map (\<lambda>r. rnd64 (real_of_int r)) responses) (map log64 p) of
                Inl e \<Rightarrow> Inl e
              | Inr hit \<Rightarrow>
                  (case np_binop mul64 (map (\<lambda>r. rnd64 (real_of_int (1 - r))) responses)
                          (map (\<lambda>v. log64 (sub64 (Finite 1) v)) p) of
                     Inl e \<Rightarrow> Inl e
                   | Inr miss \<Rightarrow>
                       (case np_binop add64 hit miss of
                          Inl e \<Rightarrow> Inl e
                        | Inr terms \<Rightarrow>
                            (let log_l = sum64 terms;
                                 log_prior = mul64 (Finite (- (1 / 2)))
                                               (mul64 (Finite theta) (Finite theta))
                             in Inr (add64 log_l log_prior))))))"

text \<open>\<open>return self.mean_scale + (self.std_scale * theta)\<close>\<close>

definition to_enem_score :: "TRIEngine \<Rightarrow> real \<Rightarrow> npfloat" where
  "to_enem_score self theta =
     add64 (Finite (mean_scale self)) (mul64 (Finite (std_scale self)) (Finite theta))"

section \<open>Auxiliary facts\<close>

subsection \<open>Arrays of equal length\<close>

lemma np_binop_same_length:
  "length xs = length ys \<Longrightarrow> np_binop f xs ys = Inr (map2 f xs ys)"
  by (simp add: np_binop_def)


subsection \<open>The clipped probability and its logarithms\<close>








subsection \<open>The curve as a function of the ability\<close>






subsection \<open>Sorting, masking and the easy subset\<close>

lemma set_np_argsort: "set (np_argsort bs) = {0..<length bs}"
proof -
  have "map snd (zip bs [0..<length bs]) = [0..<length bs]"
    by (rule map_snd_zip) simp
  then have "snd ` set (zip bs [0..<length bs]) = set [0..<length bs]"
    by (metis set_map)
  then show ?thesis
    by (simp add: np_argsort_def)
qed

lemma np_take_argsort:
  "length params_b \<le> length xs \<Longrightarrow>
     np_take xs (np_argsort params_b) = Inr (map (\<lambda>i. xs ! i) (np_argsort params_b))"
  by (auto simp add: np_take_def list_all_iff set_np_argsort)




section \<open>Auxiliary facts on binary64\<close>

subsection \<open>Powers of two and binades\<close>

lemma pow2_powr: "pow2 q = 2 powr (real_of_int q)"
  by (simp add: pow2_def powr_int)

lemma pow2_pos [simp]: "0 < pow2 q"
  by (simp add: pow2_powr)

lemma pow2_nonneg [simp]: "0 \<le> pow2 q"
  by (simp add: pow2_powr)

lemma pow2_not_neg [simp]: "\<not> pow2 q < 0"
  by (simp add: pow2_powr not_less)

lemma pow2_not_le_zero [simp]: "\<not> pow2 q \<le> 0"
  by (simp add: pow2_powr not_le)

lemma pow2_nonzero [simp]: "pow2 q \<noteq> 0"
  by (simp add: pow2_powr)

lemma pow2_add: "pow2 (p + q) = pow2 p * pow2 q"
  by (simp add: pow2_powr powr_add)

lemma pow2_le_iff [simp]: "pow2 p \<le> pow2 q \<longleftrightarrow> p \<le> q"
  by (simp add: pow2_powr)

lemma pow2_less_iff [simp]: "pow2 p < pow2 q \<longleftrightarrow> p < q"
  by (simp add: pow2_powr)

lemma pow2_nat: "0 \<le> q \<Longrightarrow> pow2 q = 2 ^ nat q"
  by (simp add: pow2_def)

lemma pow2_0 [simp]: "pow2 0 = 1"
  by (simp add: pow2_def)

lemma binade_bounds:
  assumes "x \<noteq> 0"
  shows "pow2 (binade x) \<le> \<bar>x\<bar> \<and> \<bar>x\<bar> < pow2 (binade x + 1)"
proof (cases "1 \<le> \<bar>x\<bar>")
  case True
  define n where "n = \<lfloor>\<bar>x\<bar>\<rfloor>"
  have n1: "1 \<le> n" using True by (simp add: n_def le_floor_iff)
  then have npos: "0 < n" by simp
  from bitlen_bounds [OF npos]
  have lo: "2 ^ nat (bitlen n - 1) \<le> n" and hi: "n < 2 ^ nat (bitlen n)" by simp_all
  have bl: "1 \<le> bitlen n" using npos by (smt (verit) bitlen_eq_zero_iff bitlen_nonneg)
  have b: "binade x = bitlen n - 1" using True by (simp add: binade_def n_def)
  have "real_of_int n \<le> \<bar>x\<bar>" by (simp add: n_def)
  moreover have "(2::real) ^ nat (bitlen n - 1) \<le> real_of_int n"
    using lo by (metis of_int_le_iff of_int_numeral of_int_power)
  moreover have "pow2 (binade x) = 2 ^ nat (bitlen n - 1)"
    using bl by (simp add: b pow2_nat)
  ultimately have A: "pow2 (binade x) \<le> \<bar>x\<bar>"
    by linarith
  have "\<bar>x\<bar> < real_of_int n + 1" by (simp add: n_def)
  moreover have "n + 1 \<le> 2 ^ nat (bitlen n)" using hi by simp
  then have "real_of_int (n + 1) \<le> 2 ^ nat (bitlen n)"
    by (metis of_int_le_iff of_int_numeral of_int_power)
  moreover have "pow2 (binade x + 1) = 2 ^ nat (bitlen n)"
    using bl by (simp add: b pow2_nat)
  ultimately have B: "\<bar>x\<bar> < pow2 (binade x + 1)"
    by simp
  from A B show ?thesis ..
next
  case False
  then have lt1: "\<bar>x\<bar> < 1" by simp
  have xpos: "0 < \<bar>x\<bar>" using assms by simp
  define n where "n = \<lceil>1 / \<bar>x\<bar>\<rceil>"
  define k where "k = bitlen (n - 1)"
  have inv: "1 < 1 / \<bar>x\<bar>" using lt1 xpos by simp
  then have n2: "2 \<le> n" unfolding n_def by (simp add: less_ceiling_iff) 
  then have npos: "0 < n - 1" by simp
  from bitlen_bounds [OF npos]
  have lo: "2 ^ nat (k - 1) \<le> n - 1" and hi: "n - 1 < 2 ^ nat k" by (simp_all add: k_def)
  have k1: "1 \<le> k" using npos unfolding k_def by (smt (verit) bitlen_eq_zero_iff bitlen_nonneg)
  have b: "binade x = - k" using False by (simp add: binade_def n_def k_def)
  have "1 / \<bar>x\<bar> \<le> real_of_int n" by (simp add: n_def)
  moreover have "n \<le> 2 ^ nat k" using hi by simp
  then have "real_of_int n \<le> 2 ^ nat k"
    by (metis of_int_le_iff of_int_numeral of_int_power)
  ultimately have "1 / \<bar>x\<bar> \<le> 2 ^ nat k" by linarith
  then have "1 / 2 ^ nat k \<le> \<bar>x\<bar>"
    using xpos by (simp add: field_simps)
  then have A: "pow2 (binade x) \<le> \<bar>x\<bar>"
    using k1 by (simp add: b pow2_def)
  have "real_of_int n - 1 < 1 / \<bar>x\<bar>" unfolding n_def by linarith
  moreover have "(2::real) ^ nat (k - 1) \<le> real_of_int (n - 1)"
    using lo by (metis of_int_le_iff of_int_numeral of_int_power)
  ultimately have "2 ^ nat (k - 1) < 1 / \<bar>x\<bar>" by simp
  then have "\<bar>x\<bar> < 1 / 2 ^ nat (k - 1)"
    using xpos by (simp add: field_simps)
  moreover have "pow2 (- k + 1) = 1 / 2 ^ nat (k - 1)"
    using k1 by (cases "k = 1") (simp_all add: pow2_def)
  ultimately have B: "\<bar>x\<bar> < pow2 (binade x + 1)"
    by (simp add: b)
  from A B show ?thesis ..
qed

lemma binade_unique:
  assumes "pow2 e \<le> \<bar>x\<bar>" and "\<bar>x\<bar> < pow2 (e + 1)"
  shows "binade x = e"
proof -
  have "x \<noteq> 0"
  proof
    assume "x = 0"
    with assms(1) have "pow2 e \<le> 0" by simp
    with pow2_pos [of e] show False by linarith
  qed
  from binade_bounds [OF this]
  have lo: "pow2 (binade x) \<le> \<bar>x\<bar>" and hi: "\<bar>x\<bar> < pow2 (binade x + 1)" by simp_all
  from lo assms(2) have "pow2 (binade x) < pow2 (e + 1)" by linarith
  then have "binade x < e + 1" by simp
  moreover from hi assms(1) have "pow2 e < pow2 (binade x + 1)" by linarith
  then have "e < binade x + 1" by simp
  ultimately show ?thesis by simp
qed

lemma binade_uminus [simp]: "binade (- x) = binade x"
  by (simp add: binade_def)

lemma binade_mono: "x \<noteq> 0 \<Longrightarrow> \<bar>x\<bar> \<le> \<bar>y\<bar> \<Longrightarrow> binade x \<le> binade y"
proof -
  assume x0: "x \<noteq> 0" and le: "\<bar>x\<bar> \<le> \<bar>y\<bar>"
  then have y0: "y \<noteq> 0" by auto
  from binade_bounds [OF x0] binade_bounds [OF y0] le
  have "pow2 (binade x) < pow2 (binade y + 1)" by linarith
  then show ?thesis by simp
qed

subsection \<open>Rounding to the nearest integer\<close>

lemma round_half_even_error: "\<bar>real_of_int (round_half_even s) - s\<bar> \<le> 1 / 2"
  unfolding round_half_even_def Let_def by (auto; linarith)

lemma round_half_even_of_int [simp]: "round_half_even (real_of_int k) = k"
  by (simp add: round_half_even_def)

lemma round_half_even_bounds:
  "\<lfloor>s\<rfloor> \<le> round_half_even s \<and> round_half_even s \<le> \<lfloor>s\<rfloor> + 1"
  by (simp add: round_half_even_def Let_def)

lemma round_half_even_mono:
  assumes "s \<le> t"
  shows "round_half_even s \<le> round_half_even t"
proof (cases "\<lfloor>s\<rfloor> = \<lfloor>t\<rfloor>")
  case True
  with assms show ?thesis
    unfolding round_half_even_def Let_def by (auto; linarith)
next
  case False
  with assms have "\<lfloor>s\<rfloor> + 1 \<le> \<lfloor>t\<rfloor>"
    using floor_mono [OF assms] by linarith
  with round_half_even_bounds [of s] round_half_even_bounds [of t] show ?thesis by linarith
qed

lemma round_half_even_uminus: "round_half_even (- s) = - round_half_even s"
proof (cases "s \<in> \<int>")
  case True
  then obtain k where "s = real_of_int k" by (auto elim: Ints_cases)
  then have "- s = real_of_int (- k)" by simp
  then show ?thesis using \<open>s = real_of_int k\<close> by (simp only: round_half_even_of_int)
next
  case False
  then have "s \<noteq> real_of_int \<lfloor>s\<rfloor>"
    by (metis Ints_of_int)
  then have f: "\<lfloor>- s\<rfloor> = - \<lfloor>s\<rfloor> - 1"
    by (simp add: floor_minus ceiling_altdef)
  show ?thesis
    unfolding round_half_even_def Let_def f
    by (auto; linarith?)
qed

subsection \<open>Rounding to the grid of doubles\<close>

lemma round_to_grid_alt:
  "x \<noteq> 0 \<Longrightarrow> round_to_grid x = of_int (round_half_even (x / pow2 (grid_exp x))) * pow2 (grid_exp x)"
  by (simp add: round_to_grid_def grid_exp_def Let_def)

lemma round_to_grid_0 [simp]: "round_to_grid 0 = 0"
  by (simp add: round_to_grid_def)

lemma grid_exp_uminus [simp]: "grid_exp (- x) = grid_exp x"
  by (simp add: grid_exp_def)

lemma round_to_grid_uminus: "round_to_grid (- x) = - round_to_grid x"
  by (cases "x = 0") (simp_all add: round_to_grid_alt round_half_even_uminus)

lemma round_to_grid_error:
  assumes "x \<noteq> 0"
  shows "\<bar>round_to_grid x - x\<bar> \<le> pow2 (grid_exp x) / 2"
proof -
  let ?g = "pow2 (grid_exp x)"
  have "\<bar>real_of_int (round_half_even (x / ?g)) - x / ?g\<bar> \<le> 1 / 2"
    by (rule round_half_even_error)
  then have "\<bar>real_of_int (round_half_even (x / ?g)) - x / ?g\<bar> * ?g \<le> 1 / 2 * ?g"
    by (rule mult_right_mono) simp
  moreover have "\<bar>real_of_int (round_half_even (x / ?g)) - x / ?g\<bar> * ?g
                   = \<bar>real_of_int (round_half_even (x / ?g)) * ?g - x\<bar>"
  proof -
    have "\<bar>real_of_int (round_half_even (x / ?g)) - x / ?g\<bar> * ?g
            = \<bar>(real_of_int (round_half_even (x / ?g)) - x / ?g) * ?g\<bar>"
      by (simp add: abs_mult)
    also have "(real_of_int (round_half_even (x / ?g)) - x / ?g) * ?g
                 = real_of_int (round_half_even (x / ?g)) * ?g - x"
      using pow2_pos [of "grid_exp x"] by (simp add: field_simps)
    finally show ?thesis .
  qed
  ultimately show ?thesis
    using assms by (simp add: round_to_grid_alt)
qed

lemma pow2_minus: "pow2 (p - q) = pow2 p / pow2 q"
  by (simp add: pow2_powr powr_diff)

lemma pow2_half: "pow2 q / 2 = pow2 (q - 1)"
proof -
  have "pow2 1 = 2" by (simp add: pow2_def)
  then show ?thesis by (simp add: pow2_minus)
qed

lemma round_to_grid_error_rel:
  "\<bar>round_to_grid x - x\<bar> \<le> \<bar>x\<bar> * pow2 (- 53) + pow2 (- 1075)"
proof (cases "x = 0")
  case True
  then show ?thesis by simp
next
  case False
  note err = round_to_grid_error [OF False]
  show ?thesis
  proof (cases "- 1074 \<le> binade x - 52")
    case True
    then have "grid_exp x = binade x - 52" by (simp add: grid_exp_def)
    then have "pow2 (grid_exp x) / 2 = pow2 (binade x) * pow2 (- 53)"
      by (simp add: pow2_half pow2_add [symmetric])
    moreover have "pow2 (binade x) * pow2 (- 53) \<le> \<bar>x\<bar> * pow2 (- 53)"
      using binade_bounds [OF False] by (intro mult_right_mono) simp_all
    moreover have "0 \<le> pow2 (- 1075)" by simp
    ultimately show ?thesis using err by linarith
  next
    case False
    then have "grid_exp x = - 1074" by (simp add: grid_exp_def)
    then have "pow2 (grid_exp x) / 2 = pow2 (- 1075)"
      by (simp add: pow2_half)
    moreover have "0 \<le> \<bar>x\<bar> * pow2 (- 53)" by simp
    ultimately show ?thesis using err by linarith
  qed
qed

lemma pow2_of_int: "0 \<le> n \<Longrightarrow> pow2 n = real_of_int (2 ^ nat n)"
  by (simp add: pow2_def)

lemma pow2_split: "q \<le> n \<Longrightarrow> real_of_int (2 ^ nat (n - q)) * pow2 q = pow2 n"
proof -
  assume "q \<le> n"
  then have "real_of_int (2 ^ nat (n - q)) = pow2 (n - q)"
    by (simp add: pow2_def)
  then have "real_of_int (2 ^ nat (n - q)) * pow2 q = pow2 (n - q) * pow2 q" by simp
  also have "\<dots> = pow2 n" by (simp add: pow2_add [symmetric])
  finally show ?thesis .
qed

lemma round_to_grid_nonneg: "0 \<le> x \<Longrightarrow> 0 \<le> round_to_grid x"
proof (cases "x = 0")
  case True then show ?thesis by simp
next
  case False
  assume "0 \<le> x"
  then have "real_of_int 0 \<le> x / pow2 (grid_exp x)" by simp
  from round_half_even_mono [OF this] have "0 \<le> round_half_even (x / pow2 (grid_exp x))"
    by (simp only: round_half_even_of_int)
  then show ?thesis using False by (simp add: round_to_grid_alt)
qed

lemma round_to_grid_le_pow2:
  assumes "x \<noteq> 0" and "x \<le> pow2 n" and "grid_exp x \<le> n"
  shows "round_to_grid x \<le> pow2 n"
proof -
  let ?q = "grid_exp x"
  have "x / pow2 ?q \<le> pow2 n / pow2 ?q"
    using assms(2) by (simp add: divide_right_mono)
  also have "pow2 n / pow2 ?q = real_of_int (2 ^ nat (n - ?q))"
    using assms(3) by (simp add: pow2_minus [symmetric] pow2_of_int)
  finally have "round_half_even (x / pow2 ?q) \<le> 2 ^ nat (n - ?q)"
    using round_half_even_mono round_half_even_of_int by metis
  then have "real_of_int (round_half_even (x / pow2 ?q)) \<le> real_of_int (2 ^ nat (n - ?q))"
    by (simp only: of_int_le_iff)
  then have "real_of_int (round_half_even (x / pow2 ?q)) * pow2 ?q \<le> real_of_int (2 ^ nat (n - ?q)) * pow2 ?q"
    by (rule mult_right_mono) simp
  also have "real_of_int (2 ^ nat (n - ?q)) * pow2 ?q = pow2 n"
    using assms(3) by (rule pow2_split)
  finally show ?thesis using assms(1) by (simp add: round_to_grid_alt)
qed

lemma round_to_grid_ge_pow2:
  assumes "x \<noteq> 0" and "pow2 n \<le> x" and "grid_exp x \<le> n"
  shows "pow2 n \<le> round_to_grid x"
proof -
  let ?q = "grid_exp x"
  have "pow2 n / pow2 ?q \<le> x / pow2 ?q"
    using assms(2) by (simp add: divide_right_mono)
  moreover have "pow2 n / pow2 ?q = real_of_int (2 ^ nat (n - ?q))"
    using assms(3) by (simp add: pow2_minus [symmetric] pow2_of_int)
  ultimately have "real_of_int (2 ^ nat (n - ?q)) \<le> x / pow2 ?q" by simp
  then have "2 ^ nat (n - ?q) \<le> round_half_even (x / pow2 ?q)"
    using round_half_even_mono round_half_even_of_int by metis
  then have "real_of_int (2 ^ nat (n - ?q)) \<le> real_of_int (round_half_even (x / pow2 ?q))"
    by (simp only: of_int_le_iff)
  then have "real_of_int (2 ^ nat (n - ?q)) * pow2 ?q \<le> real_of_int (round_half_even (x / pow2 ?q)) * pow2 ?q"
    by (rule mult_right_mono) simp
  moreover have "real_of_int (2 ^ nat (n - ?q)) * pow2 ?q = pow2 n"
    using assms(3) by (rule pow2_split)
  ultimately have "pow2 n \<le> real_of_int (round_half_even (x / pow2 ?q)) * pow2 ?q"
    by (simp only:)
  then show ?thesis unfolding round_to_grid_alt [OF assms(1)] .
qed

lemma round_to_grid_mono_pos:
  assumes "0 < x" and "x \<le> y"
  shows "round_to_grid x \<le> round_to_grid y"
proof -
  have x0: "x \<noteq> 0" and y0: "y \<noteq> 0" and ypos: "0 < y" using assms by auto
  have be: "binade x \<le> binade y" using assms by (intro binade_mono) auto
  then have qe: "grid_exp x \<le> grid_exp y" by (simp add: grid_exp_def)
  show ?thesis
  proof (cases "grid_exp x = grid_exp y")
    case True
    have "x / pow2 (grid_exp y) \<le> y / pow2 (grid_exp y)"
      using assms(2) by (simp add: divide_right_mono)
    from round_half_even_mono [OF this]
    have "real_of_int (round_half_even (x / pow2 (grid_exp y))) * pow2 (grid_exp y)
            \<le> real_of_int (round_half_even (y / pow2 (grid_exp y))) * pow2 (grid_exp y)"
      by (intro mult_right_mono) simp_all
    then show ?thesis using x0 y0 True by (simp add: round_to_grid_alt)
  next
    case False
    with qe have lt: "grid_exp x < grid_exp y" by simp
    then have gy: "grid_exp y = binade y - 52" by (auto simp add: grid_exp_def)
    have bl: "binade x < binade y"
      using lt be by (auto simp add: grid_exp_def)
    have "x < pow2 (binade x + 1)" using binade_bounds [OF x0] assms(1) by simp
    moreover have "pow2 (binade x + 1) \<le> pow2 (binade y)" using bl by simp
    ultimately have "x \<le> pow2 (binade y)" by linarith
    moreover have "grid_exp x \<le> binade y" using lt gy by simp
    ultimately have A: "round_to_grid x \<le> pow2 (binade y)"
      using x0 by (intro round_to_grid_le_pow2)
    have "pow2 (binade y) \<le> y" using binade_bounds [OF y0] ypos by simp
    moreover have "grid_exp y \<le> binade y" using gy by simp
    ultimately have B: "pow2 (binade y) \<le> round_to_grid y"
      using y0 by (intro round_to_grid_ge_pow2)
    from A B show ?thesis by linarith
  qed
qed

lemma round_to_grid_mono:
  assumes "x \<le> y"
  shows "round_to_grid x \<le> round_to_grid y"
proof -
  consider "0 < x" | "x \<le> 0" "0 \<le> y" | "y < 0" by linarith
  then show ?thesis
  proof cases
    case 1
    then show ?thesis using assms by (rule round_to_grid_mono_pos)
  next
    case 2
    then have "0 \<le> - x" by simp
    from round_to_grid_nonneg [OF this] have "round_to_grid x \<le> 0"
      by (simp add: round_to_grid_uminus)
    with round_to_grid_nonneg [OF 2(2)] show ?thesis by linarith
  next
    case 3
    then have "0 < - y" and "- y \<le> - x" using assms by simp_all
    from round_to_grid_mono_pos [OF this] show ?thesis
      by (simp add: round_to_grid_uminus)
  qed
qed

lemma round_to_grid_fixed:
  assumes "\<bar>m\<bar> < 2 ^ 53" and "- 1074 \<le> p"
  shows "round_to_grid (real_of_int m * pow2 p) = real_of_int m * pow2 p"
proof (cases "m = 0")
  case True then show ?thesis by simp
next
  case False
  let ?x = "real_of_int m * pow2 p"
  have x0: "?x \<noteq> 0" using False pow2_pos [of p] by simp
  have "real_of_int \<bar>m\<bar> < real_of_int (2 ^ 53)" using assms(1) by (simp only: of_int_less_iff)
  then have "\<bar>real_of_int m\<bar> < pow2 53" by (simp add: pow2_def)
  then have "\<bar>?x\<bar> < pow2 53 * pow2 p"
    by (simp add: abs_mult)
  then have "\<bar>?x\<bar> < pow2 (53 + p)" by (simp add: pow2_add)
  with binade_bounds [OF x0] have "pow2 (binade ?x) < pow2 (53 + p)" by linarith
  then have "binade ?x - 52 \<le> p" by simp
  with assms(2) have q: "grid_exp ?x \<le> p" by (simp add: grid_exp_def)
  have "?x / pow2 (grid_exp ?x) = real_of_int m * (pow2 p / pow2 (grid_exp ?x))" by simp
  also have "pow2 p / pow2 (grid_exp ?x) = real_of_int (2 ^ nat (p - grid_exp ?x))"
    using q by (simp add: pow2_minus [symmetric] pow2_of_int)
  finally have "?x / pow2 (grid_exp ?x) = real_of_int (m * 2 ^ nat (p - grid_exp ?x))"
    by simp
  then have "real_of_int (round_half_even (?x / pow2 (grid_exp ?x))) = ?x / pow2 (grid_exp ?x)"
    by (simp only: round_half_even_of_int)
  then show ?thesis
    using x0 by (simp add: round_to_grid_alt)
qed

subsection \<open>Rounded results\<close>

lemma rnd64_not_NaN [simp]: "rnd64 x \<noteq> NaN"
  by (simp add: rnd64_def Let_def)

lemma rnd64_0 [simp]: "rnd64 0 = Finite 0"
  by (simp add: rnd64_def)

lemma rnd64_mono:
  assumes "x \<le> y"
  shows "fle (rnd64 x) (rnd64 y)"
  using round_to_grid_mono [OF assms]
  by (auto simp add: rnd64_def Let_def)

lemma rnd64_eval:
  assumes "pow2 e \<le> \<bar>x\<bar>" and "\<bar>x\<bar> < pow2 (e + 1)"
    and "q = max (e - 52) (- 1074)"
    and "round_half_even (x / pow2 q) = m"
    and "\<bar>real_of_int m * pow2 q\<bar> < 2 ^ 1024"
  shows "rnd64 x = Finite (real_of_int m * pow2 q)"
proof -
  have b: "binade x = e" using assms(1,2) by (rule binade_unique)
  have "x \<noteq> 0" using assms(1) pow2_pos [of e] by (cases "x = 0") simp_all
  then have "round_to_grid x = real_of_int m * pow2 q"
    using b assms(3,4) by (simp add: round_to_grid_alt grid_exp_def)
  then show ?thesis using assms(5) by (simp add: rnd64_def)
qed

lemma rnd64_fixed:
  assumes "\<bar>m\<bar> < 2 ^ 53" and "- 1074 \<le> p" and "\<bar>real_of_int m * pow2 p\<bar> < 2 ^ 1024"
  shows "rnd64 (real_of_int m * pow2 p) = Finite (real_of_int m * pow2 p)"
  using assms by (simp add: rnd64_def round_to_grid_fixed)

subsection \<open>The finite range\<close>

lemma max_double_grid: "max_double = real_of_int (2 ^ 53 - 1) * pow2 971"
  by (simp add: max_double_def pow2_def)

lemma round_to_grid_max_double: "round_to_grid max_double = max_double"
  unfolding max_double_grid by (rule round_to_grid_fixed) simp_all

lemma max_double_less: "max_double < 2 ^ 1024"
  by (simp add: max_double_def)

lemma max_double_pos: "0 < max_double"
  by (simp add: max_double_def)

lemma round_to_grid_abs: "\<bar>round_to_grid x\<bar> = round_to_grid \<bar>x\<bar>"
proof (cases "0 \<le> x")
  case True
  then show ?thesis using round_to_grid_nonneg [OF True] by simp
next
  case False
  then have "0 \<le> - x" by simp
  from round_to_grid_nonneg [OF this] have "0 \<le> - round_to_grid x"
    by (simp add: round_to_grid_uminus)
  with False show ?thesis by (simp add: abs_if round_to_grid_uminus)
qed

lemma rnd64_finite:
  assumes "\<bar>x\<bar> \<le> max_double"
  shows "rnd64 x = Finite (round_to_grid x) \<and> \<bar>round_to_grid x\<bar> \<le> max_double"
proof -
  from round_to_grid_mono [OF assms] have "\<bar>round_to_grid x\<bar> \<le> max_double"
    by (simp add: round_to_grid_abs round_to_grid_max_double)
  with max_double_less show ?thesis by (simp add: rnd64_def)
qed

lemma round_to_grid_err:
  "\<bar>round_to_grid x - x\<bar> \<le> \<bar>x\<bar> / 9007199254740992 + pow2 (- 1075)"
  using round_to_grid_error_rel [of x] by (simp add: pow2_def)

lemma to_enem_score_value:
  assumes "\<bar>m\<bar> + \<bar>s * theta\<bar> \<le> 2 ^ 1023"
  shows "\<exists>v. to_enem_score (TRIEngine_init m s) theta = Finite v
           \<and> \<bar>v - (m + s * theta)\<bar> \<le> (\<bar>m\<bar> + \<bar>s * theta\<bar>) / 2 ^ 51 + 1 / 2 ^ 1073"
proof -
  define p where "p = round_to_grid (s * theta)"
  define eta where "eta = pow2 (- 1075)"
  define K where "K = (2::real) ^ 1023"
  define st where "st = s * theta"
  have eta0: "0 \<le> eta" and eta1: "eta \<le> 1" and eta2: "4 * eta = 1 / 2 ^ 1073"
    by (simp_all add: eta_def pow2_def)
  have big: "K + K / 9007199254740992 + 1 \<le> max_double"
    by (simp add: max_double_def K_def)
  have le: "\<bar>m\<bar> + \<bar>st\<bar> \<le> K" using assms by (simp add: K_def st_def)
  have b1: "\<bar>st\<bar> \<le> max_double"
    using le big by linarith
  from rnd64_finite [OF b1] have m1: "mul64 (Finite s) (Finite theta) = Finite p"
    by (simp add: p_def st_def)
  have e1: "\<bar>p - st\<bar> \<le> \<bar>st\<bar> / 9007199254740992 + eta"
    unfolding p_def eta_def st_def by (rule round_to_grid_err)
  have b2: "\<bar>m + p\<bar> \<le> max_double"
    using le big e1 eta1 by linarith
  from rnd64_finite [OF b2] have m2: "add64 (Finite m) (Finite p) = Finite (round_to_grid (m + p))"
    by simp
  have e2: "\<bar>round_to_grid (m + p) - (m + p)\<bar> \<le> \<bar>m + p\<bar> / 9007199254740992 + eta"
    unfolding eta_def by (rule round_to_grid_err)
  have a1: "\<bar>m + p\<bar> \<le> \<bar>m\<bar> + \<bar>st\<bar> + \<bar>p - st\<bar>" by linarith
  have a2: "\<bar>round_to_grid (m + p) - (m + st)\<bar>
              \<le> \<bar>round_to_grid (m + p) - (m + p)\<bar> + \<bar>p - st\<bar>" by linarith
  define A where "A = \<bar>m\<bar> + \<bar>st\<bar>"
  define C where "C = \<bar>m + p\<bar>"
  define D where "D = \<bar>round_to_grid (m + p) - (m + p)\<bar>"
  define E where "E = \<bar>p - st\<bar>"
  define G where "G = \<bar>round_to_grid (m + p) - (m + st)\<bar>"
  have A0: "0 \<le> A" by (simp add: A_def)
  have "\<bar>st\<bar> / 9007199254740992 \<le> A / 9007199254740992"
    by (simp add: A_def)
  with e1 have f1: "E \<le> A / 9007199254740992 + eta"
    unfolding E_def by linarith
  have f2: "D \<le> C / 9007199254740992 + eta" using e2 by (simp add: D_def C_def)
  have f3: "C \<le> A + E" using a1 by (simp add: C_def A_def E_def)
  have f4: "G \<le> D + E" using a2 by (simp add: G_def D_def E_def)
  have "G \<le> A / 2251799813685248 + 4 * eta"
    using f1 f2 f3 f4 A0 eta0 by linarith
  then have "\<bar>round_to_grid (m + p) - (m + st)\<bar> \<le> (\<bar>m\<bar> + \<bar>st\<bar>) / 2251799813685248 + 4 * eta"
    by (simp add: G_def A_def)
  then show ?thesis
    using m1 m2 eta2 by (simp add: to_enem_score_def TRIEngine_init_def st_def)
qed

subsection \<open>The curve at a zero exponent\<close>

lemma round_half_even_near:
  assumes "real_of_int k \<le> s" and "s < real_of_int k + 1 / 2"
  shows "round_half_even s = k"
proof -
  have "\<lfloor>s\<rfloor> = k" using assms by (intro floor_unique) linarith+
  then show ?thesis using assms by (simp add: round_half_even_def)
qed

lemma round_to_grid_top:
  assumes "max_double < y" and "y < overflow_bound"
  shows "round_to_grid y = max_double"
proof -
  have p1023: "pow2 1023 = 2 ^ 1023" and p1024: "pow2 (1023 + 1) = 2 ^ 1024"
    and p971: "pow2 971 = 2 ^ 971" by (simp_all add: pow2_def)
  have ypos: "0 < y" using assms(1) max_double_pos by linarith
  have "pow2 1023 \<le> \<bar>y\<bar>" using assms(1) ypos unfolding p1023 by (simp add: max_double_def)
  moreover have "\<bar>y\<bar> < pow2 (1023 + 1)"
    using assms(2) ypos unfolding p1024 by (simp add: overflow_bound_def)
  ultimately have b: "binade y = 1023" by (rule binade_unique)
  then have g: "grid_exp y = 971" by (simp add: grid_exp_def)
  have "real_of_int (2 ^ 53 - 1) \<le> y / pow2 971"
    using assms(1) unfolding p971 by (simp add: max_double_def field_simps)
  moreover have "y / pow2 971 < real_of_int (2 ^ 53 - 1) + 1 / 2"
    using assms(2) unfolding p971 by (simp add: overflow_bound_def field_simps)
  ultimately have "round_half_even (y / pow2 971) = 2 ^ 53 - 1"
    by (rule round_half_even_near)
  then show ?thesis
    using ypos g by (simp add: round_to_grid_alt max_double_grid)
qed

lemma rnd64_finite_lt:
  assumes "\<bar>x\<bar> < overflow_bound"
  shows "rnd64 x = Finite (round_to_grid x) \<and> \<bar>round_to_grid x\<bar> \<le> max_double"
proof (cases "\<bar>x\<bar> \<le> max_double")
  case True
  then show ?thesis by (rule rnd64_finite)
next
  case False
  then have "max_double < \<bar>x\<bar>" by simp
  from round_to_grid_top [OF this assms] have "\<bar>round_to_grid x\<bar> = max_double"
    by (simp add: round_to_grid_abs)
  with max_double_less show ?thesis by (simp add: rnd64_def)
qed

lemma rnd64_int:
  assumes "\<bar>m\<bar> < 2 ^ 53"
  shows "rnd64 (real_of_int m) = Finite (real_of_int m)"
proof -
  have "real_of_int \<bar>m\<bar> < real_of_int (2 ^ 53)" using assms by (simp only: of_int_less_iff)
  then have "\<bar>real_of_int m * pow2 0\<bar> < 2 ^ 1024" by simp
  from rnd64_fixed [OF assms _ this] show ?thesis by simp
qed

lemma rnd64_1 [simp]: "rnd64 1 = Finite 1"
  using rnd64_int [of 1] by simp

lemma rnd64_2 [simp]: "rnd64 2 = Finite 2"
  using rnd64_int [of 2] by simp

lemma exp64_0 [simp]: "exp64 (Finite 0) = Finite 1"
  by simp

lemma logistic_zero_exponent:
  assumes "mul64 (Finite (- a)) (sub64 (Finite theta) (Finite b)) = Finite 0"
  shows "logistic_3pl_f64 theta a b c =
           add64 (Finite c) (div64 (sub64 (Finite 1) (Finite c)) (Finite 2))"
  by (simp add: logistic_3pl_f64_def assms)

lemma eta_small: "pow2 (- 1075) \<le> 1 / 1267650600228229401496703205376"
proof -
  have "pow2 (- 1075) \<le> pow2 (- 100)" by simp
  then show ?thesis by (simp add: pow2_def)
qed

lemma half_value:
  assumes "0 \<le> c" and "c < 1"
  shows "\<exists>v. add64 (Finite c) (div64 (sub64 (Finite 1) (Finite c)) (Finite 2)) = Finite v
           \<and> \<bar>v - (1 + c) / 2\<bar> \<le> 1 / 2 ^ 51"
proof -
  define eta where "eta = pow2 (- 1075)"
  have eta0: "0 \<le> eta" and eta1: "eta \<le> 1 / 1267650600228229401496703205376"
    unfolding eta_def by (simp, rule eta_small)
  have md: "4 \<le> max_double" by (simp add: max_double_def)
  define n where "n = round_to_grid (1 - c)"
  define h where "h = round_to_grid (n / 2)"
  define v where "v = round_to_grid (c + h)"
  define En where "En = \<bar>n - (1 - c)\<bar>"
  define Eh where "Eh = \<bar>h - n / 2\<bar>"
  define Ev where "Ev = \<bar>v - (c + h)\<bar>"
  have c1: "\<bar>1 - c\<bar> \<le> 1" using assms by simp
  have en: "En \<le> 1 / 9007199254740992 + eta"
  proof -
    have "En \<le> \<bar>1 - c\<bar> / 9007199254740992 + eta"
      unfolding En_def n_def eta_def by (rule round_to_grid_err)
    moreover have "\<bar>1 - c\<bar> / 9007199254740992 \<le> 1 / 9007199254740992"
      using c1 by simp
    ultimately show ?thesis by linarith
  qed
  have nb: "\<bar>n\<bar> \<le> 1 + En" unfolding En_def using c1 by linarith
  have n2: "\<bar>n / 2\<bar> \<le> 1" using nb en eta1 by simp
  have eh: "Eh \<le> 1 / 9007199254740992 + eta"
  proof -
    have "Eh \<le> \<bar>n / 2\<bar> / 9007199254740992 + eta"
      unfolding Eh_def h_def eta_def by (rule round_to_grid_err)
    moreover have "\<bar>n / 2\<bar> / 9007199254740992 \<le> 1 / 9007199254740992"
      using n2 by simp
    ultimately show ?thesis by linarith
  qed
  have hb: "\<bar>h\<bar> \<le> 1 + Eh" unfolding Eh_def using n2 by linarith
  have ch: "\<bar>c + h\<bar> \<le> 2"
  proof -
    define x2 where "x2 = h - n / 2"
    define x3 where "x3 = n - (1 - c)"
    have eq: "c + h = 1 / 2 + c / 2 + x2 + x3 / 2"
      by (simp add: x2_def x3_def field_simps)
    have "\<bar>x2\<bar> \<le> 1 / 4" and "\<bar>x3\<bar> \<le> 1 / 4"
      using eh en eta1 by (simp_all add: x2_def x3_def Eh_def En_def)
    then have "\<bar>1 / 2 + c / 2 + x2 + x3 / 2\<bar> \<le> 2" using assms by linarith
    then show ?thesis by (simp only: eq)
  qed
  have ev: "Ev \<le> 2 / 9007199254740992 + eta"
  proof -
    have "Ev \<le> \<bar>c + h\<bar> / 9007199254740992 + eta"
      unfolding Ev_def v_def eta_def by (rule round_to_grid_err)
    moreover have "\<bar>c + h\<bar> / 9007199254740992 \<le> 2 / 9007199254740992"
      using ch by simp
    ultimately show ?thesis by linarith
  qed
  have tri: "\<bar>v - (1 + c) / 2\<bar> \<le> Ev + Eh + En / 2"
  proof -
    define x1 where "x1 = v - (c + h)"
    define x2 where "x2 = h - n / 2"
    define x3 where "x3 = n - (1 - c)"
    have eq: "v - (1 + c) / 2 = x1 + x2 + x3 / 2"
      by (simp add: x1_def x2_def x3_def field_simps)
    have "\<bar>x1 + x2 + x3 / 2\<bar> \<le> \<bar>x1\<bar> + \<bar>x2\<bar> + \<bar>x3\<bar> / 2" by linarith
    then have "\<bar>v - (1 + c) / 2\<bar> \<le> \<bar>x1\<bar> + \<bar>x2\<bar> + \<bar>x3\<bar> / 2"
      by (simp only: eq)
    then show ?thesis
      unfolding Ev_def Eh_def En_def x1_def x2_def x3_def .
  qed
  have bound: "\<bar>v - (1 + c) / 2\<bar> \<le> 1 / 2 ^ 51"
  proof -
    define G where "G = \<bar>v - (1 + c) / 2\<bar>"
    have "G \<le> Ev + Eh + En / 2" using tri by (simp add: G_def)
    with ev eh en eta1 have "G \<le> 1 / 2251799813685248" by linarith
    then show ?thesis by (simp add: G_def)
  qed
  have s1: "sub64 (Finite 1) (Finite c) = Finite n"
    using rnd64_finite [of "1 - c"] c1 md by (simp add: sub64_def n_def)
  have s2: "div64 (Finite n) (Finite 2) = Finite h"
    using rnd64_finite [of "n / 2"] n2 md by (simp add: h_def)
  have s3: "add64 (Finite c) (Finite h) = Finite v"
    using rnd64_finite [of "c + h"] ch md by (simp add: v_def)
  show ?thesis using s1 s2 s3 bound by auto
qed

lemma logistic_at_difficulty_exponent:
  "mul64 (Finite (- a)) (sub64 (Finite b) (Finite b)) = Finite 0"
  by (simp add: sub64_def)

lemma logistic_zero_slope_exponent:
  assumes "\<bar>theta - b\<bar> < overflow_bound"
  shows "mul64 (Finite (- 0)) (sub64 (Finite theta) (Finite b)) = Finite 0"
  using rnd64_finite_lt [OF assms] by (simp add: sub64_def)

subsection \<open>Monotone operations\<close>

lemma fle_NegInf [simp]: "z \<noteq> NaN \<Longrightarrow> fle NegInf z"
  by (cases z) simp_all

lemma fle_PosInf [simp]: "z \<noteq> NaN \<Longrightarrow> fle z PosInf"
  by (cases z) simp_all


lemma sub64_Finite [simp]: "sub64 (Finite v) (Finite w) = rnd64 (v - w)"
  by (simp add: sub64_def)



lemma exp64_nonneg: "x \<noteq> NaN \<Longrightarrow> fle (Finite 0) (exp64 x)"
proof (cases x)
  case (Finite v)
  have "(0::real) \<le> exp v" by simp
  from rnd64_mono [OF this] show ?thesis using Finite by simp
qed simp_all

lemma add64_mono_right:
  assumes "fle x y"
  shows "fle (add64 (Finite k) x) (add64 (Finite k) y)"
proof (cases x)
  case (Finite v)
  show ?thesis
  proof (cases y)
    case (Finite w)
    with \<open>x = Finite v\<close> assms have "k + v \<le> k + w" by simp
    from rnd64_mono [OF this] show ?thesis using Finite \<open>x = Finite v\<close> by simp
  qed (use \<open>x = Finite v\<close> assms in simp_all)
next
  case PosInf
  then show ?thesis using assms by (cases y) simp_all
next
  case NegInf
  then show ?thesis using assms by (cases y) simp_all
next
  case NaN
  then show ?thesis using assms by simp
qed

lemma one_plus_nonneg:
  assumes "fle (Finite 0) e"
  shows "fle (Finite 1) (add64 (Finite 1) e)"
  using add64_mono_right [OF assms, of 1] by simp




subsection \<open>Values at the double nearest to 0.2\<close>

lemma rnd64_one_fifth:
  "rnd64 (3602879701896397 / 2 ^ 54) = Finite (3602879701896397 / 2 ^ 54)"
  using rnd64_fixed [of 3602879701896397 "- 54"] by (simp add: pow2_def)

lemma one_minus_fifth:
  "rnd64 (1 - 3602879701896397 / 2 ^ 54) = Finite (7205759403792794 / 2 ^ 53)"
  using rnd64_eval [of "- 1" "1 - 3602879701896397 / 2 ^ 54" "- 53" 7205759403792794]
  by (simp add: pow2_def round_half_even_def)

lemma four_fifths_halved:
  "rnd64 (7205759403792794 / 2 ^ 53 / 2) = Finite (7205759403792794 / 2 ^ 54)"
  using rnd64_fixed [of 7205759403792794 "- 54"] by (simp add: pow2_def)

lemma fifth_plus_two_fifths:
  "rnd64 (3602879701896397 / 2 ^ 54 + 7205759403792794 / 2 ^ 54) = Finite (5404319552844596 / 2 ^ 53)"
  using rnd64_eval [of "- 1" "3602879701896397 / 2 ^ 54 + 7205759403792794 / 2 ^ 54" "- 53"
      5404319552844596]
  by (simp add: pow2_def round_half_even_def)

lemma one_plus_fifth:
  "rnd64 (1 + 3602879701896397 / 2 ^ 54) = Finite (5404319552844595 / 2 ^ 52)"
  using rnd64_eval [of 0 "1 + 3602879701896397 / 2 ^ 54" "- 52" 5404319552844595]
  by (simp add: pow2_def round_half_even_def)

lemma six_fifths_halved:
  "rnd64 (5404319552844595 / 2 ^ 52 / 2) = Finite (5404319552844595 / 2 ^ 53)"
  using rnd64_fixed [of 5404319552844595 "- 53"] by (simp add: pow2_def)

lemma half_value_one_fifth:
  "add64 (Finite (3602879701896397 / 2 ^ 54))
     (div64 (sub64 (Finite 1) (Finite (3602879701896397 / 2 ^ 54))) (Finite 2))
   = Finite (5404319552844596 / 2 ^ 53)"
proof -
  have s1: "sub64 (Finite 1) (Finite (3602879701896397 / 2 ^ 54)) = Finite (7205759403792794 / 2 ^ 53)"
    by (simp only: sub64_Finite one_minus_fifth)
  have s2: "div64 (Finite (7205759403792794 / 2 ^ 53)) (Finite 2) = Finite (7205759403792794 / 2 ^ 54)"
    using four_fifths_halved by simp
  have s3: "add64 (Finite (3602879701896397 / 2 ^ 54)) (Finite (7205759403792794 / 2 ^ 54))
              = Finite (5404319552844596 / 2 ^ 53)"
    using fifth_plus_two_fifths by simp
  show ?thesis by (simp only: s1 s2 s3)
qed

lemma float_half_one_fifth:
  "div64 (add64 (Finite 1) (Finite (3602879701896397 / 2 ^ 54))) (Finite 2)
     = Finite (5404319552844595 / 2 ^ 53)"
proof -
  have s1: "add64 (Finite 1) (Finite (3602879701896397 / 2 ^ 54)) = Finite (5404319552844595 / 2 ^ 52)"
    using one_plus_fifth by simp
  have s2: "div64 (Finite (5404319552844595 / 2 ^ 52)) (Finite 2) = Finite (5404319552844595 / 2 ^ 53)"
    using six_fifths_halved by simp
  show ?thesis by (simp only: s1 s2)
qed

lemma add64_NaN_right [simp]: "add64 x NaN = NaN"
  by (cases x) simp_all

lemma div64_NaN_right [simp]: "div64 x NaN = NaN"
  by (cases x) simp_all

lemma rnd64_overflow_pow: "rnd64 (2 ^ 1024) = PosInf"
proof -
  have "round_to_grid (real_of_int 1 * pow2 1024) = real_of_int 1 * pow2 1024"
    by (rule round_to_grid_fixed) simp_all
  then have "round_to_grid (2 ^ 1024) = 2 ^ 1024" by (simp add: pow2_def)
  then show ?thesis by (simp add: rnd64_def)
qed

lemma to_enem_score_zero: "to_enem_score self 0 = rnd64 (mean_scale self)"
  by (simp add: to_enem_score_def)

lemma to_enem_score_default_zero: "to_enem_score TRIEngine_default 0 = Finite 500"
  using rnd64_int [of 500]
  by (simp add: to_enem_score_def TRIEngine_default_def TRIEngine_init_def)

subsection \<open>Saturation\<close>


lemma round_to_grid_pow2: "- 1074 \<le> p \<Longrightarrow> round_to_grid (pow2 p) = pow2 p"
  using round_to_grid_fixed [of 1 p] by simp




subsection \<open>The clip and the logarithms\<close>

lemma clip_lo_value: "clip_lo = Finite (7737125245533627 / 2 ^ 86)"
  unfolding clip_lo_def
  using rnd64_eval [of "- 34" "1 / 10 ^ 10" "- 86" 7737125245533627]
  by (simp add: pow2_def round_half_even_def)

lemma clip_hi_value: "clip_hi = Finite (9007199253840272 / 2 ^ 53)"
  unfolding clip_hi_def clip_lo_value sub64_Finite
  using rnd64_eval [of "- 1" "1 - 7737125245533627 / 2 ^ 86" "- 53" 9007199253840272]
  by (simp add: pow2_def round_half_even_def)

lemma clip64_Finite:
  assumes "P \<noteq> NaN" and "lo \<le> hi"
  shows "\<exists>p. clip64 P (Finite lo) (Finite hi) = Finite p \<and> lo \<le> p \<and> p \<le> hi"
  using assms unfolding clip64_def by (cases P) auto

lemma clip64_range:
  assumes "P \<noteq> NaN"
  shows "\<exists>p. clip64 P clip_lo clip_hi = Finite p
           \<and> 7737125245533627 / 2 ^ 86 \<le> p \<and> p \<le> 9007199253840272 / 2 ^ 53"
  unfolding clip_lo_value clip_hi_value
  by (rule clip64_Finite [OF assms]) simp

lemma ln_pow2_lower:
  assumes "pow2 (- 34) \<le> u"
  shows "- 34 \<le> ln u"
proof -
  have upos: "0 < u" using assms pow2_pos [of "- 34"] by linarith
  have "ln (2::real) \<le> 1" using ln_le_minus_one [of "2::real"] by simp
  have "ln (pow2 (- 34)) = - (34 * ln 2)"
    by (simp add: pow2_powr ln_powr)
  moreover have "ln (pow2 (- 34)) \<le> ln u" using assms upos by simp
  ultimately show ?thesis using \<open>ln 2 \<le> 1\<close> by linarith
qed

lemma log64_range:
  assumes "pow2 (- 34) \<le> u" and "u \<le> 1"
  shows "\<exists>t. log64 (Finite u) = Finite t \<and> - 34 \<le> t \<and> t \<le> 0"
proof -
  have upos: "0 < u" using assms(1) pow2_pos [of "- 34"] by linarith
  have lo: "- 34 \<le> ln u" using assms(1) by (rule ln_pow2_lower)
  have hi: "ln u \<le> 0" using assms(2) upos by simp
  have "round_to_grid (real_of_int (- 34) * pow2 0) = real_of_int (- 34) * pow2 0"
    by (rule round_to_grid_fixed) simp_all
  then have f: "round_to_grid (- 34) = - 34" by simp
  have a: "- 34 \<le> round_to_grid (ln u)"
    using round_to_grid_mono [OF lo] f by simp
  have b: "round_to_grid (ln u) \<le> 0"
    using round_to_grid_mono [OF hi] by simp
  have "(34::real) \<le> max_double" by (simp add: max_double_def)
  with lo hi have "\<bar>ln u\<bar> \<le> max_double" by simp
  from rnd64_finite [OF this] show ?thesis using upos a b by simp
qed

lemma one_minus_clipped:
  assumes "7737125245533627 / 2 ^ 86 \<le> p" and "p \<le> 9007199253840272 / 2 ^ 53"
  shows "\<exists>u. sub64 (Finite 1) (Finite p) = Finite u \<and> pow2 (- 34) \<le> u \<and> u \<le> 1"
proof -
  have "pow2 (- 34) \<le> 1 - p" using assms(2) by (simp add: pow2_def)
  from round_to_grid_mono [OF this] have a: "pow2 (- 34) \<le> round_to_grid (1 - p)"
    by (simp add: round_to_grid_pow2)
  have "1 - p \<le> 1" using assms(1) by simp
  from round_to_grid_mono [OF this] have b: "round_to_grid (1 - p) \<le> 1"
    using round_to_grid_pow2 [of 0] by simp
  have "\<bar>1 - p\<bar> \<le> max_double" using assms by (simp add: max_double_def)
  from rnd64_finite [OF this] show ?thesis using a b by simp
qed

lemma clipped_lower: "pow2 (- 34) \<le> 7737125245533627 / 2 ^ 86"
  by (simp add: pow2_def)

subsection \<open>The terms of the likelihood and their sum\<close>

lemma round_to_grid_eval:
  assumes "pow2 e \<le> \<bar>x\<bar>" and "\<bar>x\<bar> < pow2 (e + 1)"
    and "q = max (e - 52) (- 1074)"
    and "round_half_even (x / pow2 q) = m"
  shows "round_to_grid x = real_of_int m * pow2 q"
proof -
  have b: "binade x = e" using assms(1,2) by (rule binade_unique)
  have "x \<noteq> 0" using assms(1) pow2_pos [of e] by (cases "x = 0") simp_all
  then show ?thesis
    using b assms(3,4) by (simp add: round_to_grid_alt grid_exp_def)
qed

lemma round_to_grid_int: "\<bar>k\<bar> < 2 ^ 53 \<Longrightarrow> round_to_grid (real_of_int k) = real_of_int k"
  using round_to_grid_fixed [of k 0] by simp

lemma rnd64_int_range:
  assumes "\<bar>k\<bar> < 2 ^ 53" and "real_of_int k \<le> x" and "x \<le> 0"
  shows "\<exists>y. rnd64 x = Finite y \<and> real_of_int k \<le> y \<and> y \<le> 0"
proof -
  have a: "real_of_int k \<le> round_to_grid x"
    using round_to_grid_mono [OF assms(2)] assms(1) by (simp add: round_to_grid_int)
  have b: "round_to_grid x \<le> 0"
    using round_to_grid_mono [OF assms(3)] by simp
  have "real_of_int \<bar>k\<bar> < real_of_int (2 ^ 53)" using assms(1) by (simp only: of_int_less_iff)
  then have "\<bar>real_of_int k\<bar> < 2 ^ 1024" by simp
  with a b have "\<bar>round_to_grid x\<bar> < 2 ^ 1024" by linarith
  then show ?thesis using a b by (simp add: rnd64_def)
qed

lemma term_range:
  assumes "r = 0 \<or> r = 1" and "P \<noteq> NaN"
  shows "\<exists>x. add64 (mul64 (rnd64 (real_of_int r)) (log64 (clip64 P clip_lo clip_hi)))
                (mul64 (rnd64 (real_of_int (1 - r)))
                   (log64 (sub64 (Finite 1) (clip64 P clip_lo clip_hi)))) = Finite x
           \<and> - 68 \<le> x \<and> x \<le> 0"
proof -
  from clip64_range [OF assms(2)] obtain p
    where p: "clip64 P clip_lo clip_hi = Finite p" "7737125245533627 / 2 ^ 86 \<le> p"
      "p \<le> 9007199253840272 / 2 ^ 53" by blast
  have "pow2 (- 34) \<le> p" using p(2) clipped_lower by linarith
  moreover have "p \<le> 1" using p(3) by simp
  ultimately obtain t1 where t1: "log64 (Finite p) = Finite t1" "- 34 \<le> t1" "t1 \<le> 0"
    using log64_range by blast
  from one_minus_clipped [OF p(2,3)] obtain u
    where u: "sub64 (Finite 1) (Finite p) = Finite u" "pow2 (- 34) \<le> u" "u \<le> 1" by blast
  from log64_range [OF u(2,3)] obtain t2
    where t2: "log64 (Finite u) = Finite t2" "- 34 \<le> t2" "t2 \<le> 0" by blast
  have one: "rnd64 (real_of_int 1) = Finite 1" and zero: "rnd64 (real_of_int 0) = Finite 0"
    by simp_all
  from assms(1) show ?thesis
  proof
    assume r: "r = 0"
    from rnd64_int_range [of "- 34" t2] t2(2,3) obtain y
      where y: "rnd64 t2 = Finite y" "- 34 \<le> y" "y \<le> 0" by auto
    from rnd64_int_range [of "- 68" y] y(2,3) obtain x
      where x: "rnd64 y = Finite x" "- 68 \<le> x" "x \<le> 0" by auto
    show ?thesis
      using r p(1) t1(1) u(1) t2(1) y(1) x by (simp del: sub64_Finite)
  next
    assume r: "r = 1"
    from rnd64_int_range [of "- 34" t1] t1(2,3) obtain y
      where y: "rnd64 t1 = Finite y" "- 34 \<le> y" "y \<le> 0" by auto
    from rnd64_int_range [of "- 68" y] y(2,3) obtain x
      where x: "rnd64 y = Finite x" "- 68 \<le> x" "x \<le> 0" by auto
    show ?thesis
      using r p(1) t1(1) u(1) t2(1) y(1) x by (simp del: sub64_Finite)
  qed
qed

lemma round_to_grid_absorb: "round_to_grid (- (2 ^ 62) - 68) = - (2 ^ 62)"
proof -
  have "round_half_even ((2 ^ 62 + 68) / pow2 10) = 2 ^ 52"
    by (rule round_half_even_near) (simp_all add: pow2_def)
  then have "round_to_grid (2 ^ 62 + 68) = real_of_int (2 ^ 52) * pow2 10"
    by (intro round_to_grid_eval [where e = 62]) (simp_all add: pow2_def)
  then have "round_to_grid (2 ^ 62 + 68) = 2 ^ 62" by (simp add: pow2_def)
  moreover have "- (2 ^ 62) - 68 = - (2 ^ 62 + (68::real))" by simp
  ultimately show ?thesis by (simp only: round_to_grid_uminus)
qed

lemma sum64_step:
  assumes "- (2 ^ 62) \<le> s" and "s \<le> 0" and "- 68 \<le> t" and "t \<le> 0"
  shows "\<exists>v. add64 (Finite s) (Finite t) = Finite v \<and> - (2 ^ 62) \<le> v \<and> v \<le> 0"
proof -
  have "- (2 ^ 62) - 68 \<le> s + t" using assms(1,3) by linarith
  from round_to_grid_mono [OF this] have a: "- (2 ^ 62) \<le> round_to_grid (s + t)"
    by (simp only: round_to_grid_absorb)
  have "s + t \<le> 0" using assms(2,4) by linarith
  from round_to_grid_mono [OF this] have b: "round_to_grid (s + t) \<le> 0" by simp
  have "(2::real) ^ 62 < 2 ^ 1024" by simp
  with a b have "\<bar>round_to_grid (s + t)\<bar> < 2 ^ 1024" by linarith
  then show ?thesis using a b by (simp add: rnd64_def)
qed

lemma foldl_add64_range:
  assumes "\<forall>x\<in>set ts. \<exists>v. x = Finite v \<and> - 68 \<le> v \<and> v \<le> 0"
    and "- (2 ^ 62) \<le> s" and "s \<le> 0"
  shows "\<exists>v. foldl add64 (Finite s) ts = Finite v \<and> - (2 ^ 62) \<le> v \<and> v \<le> 0"
  using assms
proof (induction ts arbitrary: s)
  case Nil
  then show ?case by simp
next
  case (Cons x ts)
  from Cons.prems(1) obtain t where t: "x = Finite t" "- 68 \<le> t" "t \<le> 0" by auto
  from sum64_step [OF Cons.prems(2,3) t(2,3)] obtain v
    where v: "add64 (Finite s) (Finite t) = Finite v" "- (2 ^ 62) \<le> v" "v \<le> 0" by blast
  from Cons.prems(1) have "\<forall>x\<in>set ts. \<exists>v. x = Finite v \<and> - 68 \<le> v \<and> v \<le> 0" by simp
  from Cons.IH [OF this v(2,3)] show ?case using t(1) v(1) by simp
qed

lemma sum64_range:
  assumes "\<forall>x\<in>set ts. \<exists>v. x = Finite v \<and> - 68 \<le> v \<and> v \<le> 0"
  shows "\<exists>v. sum64 ts = Finite v \<and> - (2 ^ 62) \<le> v \<and> v \<le> 0"
  unfolding sum64_def by (rule foldl_add64_range [OF assms]) simp_all

lemma add64_not_NaN: "q \<noteq> NaN \<Longrightarrow> add64 (Finite c) q \<noteq> NaN"
  by (cases q) simp_all

lemma logistic_3pl_f64_not_NaN:
  assumes "\<bar>theta - b\<bar> < overflow_bound" and "\<bar>1 - c\<bar> < overflow_bound"
  shows "logistic_3pl_f64 theta a b c \<noteq> NaN"
proof -
  define w where "w = add64 (Finite 1)
                    (exp64 (mul64 (Finite (- a)) (sub64 (Finite theta) (Finite b))))"
  have "mul64 (Finite (- a)) (sub64 (Finite theta) (Finite b)) \<noteq> NaN"
    using rnd64_finite_lt [OF assms(1)] by simp
  then have ge1: "fle (Finite 1) w"
    unfolding w_def by (intro one_plus_nonneg exp64_nonneg)
  obtain n where n: "sub64 (Finite 1) (Finite c) = Finite n"
    using rnd64_finite_lt [OF assms(2)] by simp
  have "div64 (Finite n) w \<noteq> NaN"
    using ge1 by (cases w) simp_all
  then have "add64 (Finite c) (div64 (Finite n) w) \<noteq> NaN" by (rule add64_not_NaN)
  then show ?thesis
    unfolding logistic_3pl_f64_def w_def [symmetric] n .
qed

subsection \<open>The log-posterior on arrays of equal length\<close>

lemma logistic_3pl_vec_f64_same_length:
  assumes "length params_a = n" "length params_b = n" "length params_c = n"
  shows "logistic_3pl_vec_f64 theta params_a params_b params_c =
           Inr (map (\<lambda>i. logistic_3pl_f64 theta (params_a ! i) (params_b ! i) (params_c ! i)) [0..<n])"
proof -
  let ?z = "\<lambda>i. mul64 (Finite (- (params_a ! i))) (sub64 (Finite theta) (Finite (params_b ! i)))"
  let ?q = "\<lambda>i. div64 (sub64 (Finite 1) (Finite (params_c ! i))) (add64 (Finite 1) (exp64 (?z i)))"
  have z: "np_binop mul64 (map (\<lambda>a. Finite (- a)) params_a)
             (map (\<lambda>b. sub64 (Finite theta) (Finite b)) params_b) = Inr (map ?z [0..<n])"
    using assms by (simp add: np_binop_same_length list_eq_iff_nth_eq del: sub64_Finite)
  have q: "np_binop div64 (map (\<lambda>c. sub64 (Finite 1) (Finite c)) params_c)
             (map (\<lambda>v. add64 (Finite 1) (exp64 v)) (map ?z [0..<n])) = Inr (map ?q [0..<n])"
    using assms by (simp add: np_binop_same_length list_eq_iff_nth_eq del: sub64_Finite)
  have p: "np_binop add64 (map Finite params_c) (map ?q [0..<n])
             = Inr (map (\<lambda>i. logistic_3pl_f64 theta (params_a ! i) (params_b ! i) (params_c ! i)) [0..<n])"
    using assms
    by (simp add: np_binop_same_length list_eq_iff_nth_eq logistic_3pl_f64_def del: sub64_Finite)
  show ?thesis
    unfolding logistic_3pl_vec_f64_def by (simp only: z q p sum.case)
qed

lemma log_posterior_f64_same_length:
  assumes "length responses = n" "length params_a = n" "length params_b = n" "length params_c = n"
  shows "log_posterior_f64 theta responses params_a params_b params_c =
           Inr (add64
             (sum64 (map (\<lambda>i.
                add64 (mul64 (rnd64 (real_of_int (responses ! i)))
                         (log64 (clip64 (logistic_3pl_f64 theta (params_a ! i) (params_b ! i) (params_c ! i))
                                   clip_lo clip_hi)))
                      (mul64 (rnd64 (real_of_int (1 - responses ! i)))
                         (log64 (sub64 (Finite 1)
                            (clip64 (logistic_3pl_f64 theta (params_a ! i) (params_b ! i) (params_c ! i))
                               clip_lo clip_hi))))) [0..<n]))
             (mul64 (Finite (- (1 / 2))) (mul64 (Finite theta) (Finite theta))))"
proof -
  let ?P = "\<lambda>i. clip64 (logistic_3pl_f64 theta (params_a ! i) (params_b ! i) (params_c ! i))
                   clip_lo clip_hi"
  let ?hit = "\<lambda>i. mul64 (rnd64 (real_of_int (responses ! i))) (log64 (?P i))"
  let ?miss = "\<lambda>i. mul64 (rnd64 (real_of_int (1 - responses ! i))) (log64 (sub64 (Finite 1) (?P i)))"
  have p: "map (\<lambda>v. clip64 v clip_lo clip_hi)
             (map (\<lambda>i. logistic_3pl_f64 theta (params_a ! i) (params_b ! i) (params_c ! i)) [0..<n])
           = map ?P [0..<n]"
    by simp
  have hit: "np_binop mul64 (map (\<lambda>r. rnd64 (real_of_int r)) responses) (map log64 (map ?P [0..<n]))
               = Inr (map ?hit [0..<n])"
    using assms by (simp add: np_binop_same_length list_eq_iff_nth_eq)
  have miss: "np_binop mul64 (map (\<lambda>r. rnd64 (real_of_int (1 - r))) responses)
                (map (\<lambda>v. log64 (sub64 (Finite 1) v)) (map ?P [0..<n]))
               = Inr (map ?miss [0..<n])"
    using assms by (simp add: np_binop_same_length list_eq_iff_nth_eq)
  have terms: "np_binop add64 (map ?hit [0..<n]) (map ?miss [0..<n])
                 = Inr (map (\<lambda>i. add64 (?hit i) (?miss i)) [0..<n])"
    by (simp add: np_binop_same_length list_eq_iff_nth_eq)
  show ?thesis
    unfolding log_posterior_f64_def
    by (simp only: logistic_3pl_vec_f64_same_length [OF assms(2,3,4)] sum.case Let_def p hit miss
        terms)
qed

lemma log_likelihood_f64_finite:
  assumes "length responses = n" "length params_a = n" "length params_b = n" "length params_c = n"
    and "\<forall>i<n. responses ! i = 0 \<or> responses ! i = 1"
    and "\<forall>i<n. \<bar>theta - params_b ! i\<bar> < overflow_bound"
    and "\<forall>i<n. \<bar>1 - params_c ! i\<bar> < overflow_bound"
  shows "\<exists>s. - (2 ^ 62) \<le> s \<and> s \<le> 0
           \<and> log_posterior_f64 theta responses params_a params_b params_c =
               Inr (add64 (Finite s)
                      (mul64 (Finite (- (1 / 2))) (mul64 (Finite theta) (Finite theta))))"
proof -
  let ?P = "\<lambda>i. clip64 (logistic_3pl_f64 theta (params_a ! i) (params_b ! i) (params_c ! i))
                   clip_lo clip_hi"
  let ?tm = "\<lambda>i. add64 (mul64 (rnd64 (real_of_int (responses ! i))) (log64 (?P i)))
                      (mul64 (rnd64 (real_of_int (1 - responses ! i)))
                         (log64 (sub64 (Finite 1) (?P i))))"
  have "\<forall>x\<in>set (map ?tm [0..<n]). \<exists>v. x = Finite v \<and> - 68 \<le> v \<and> v \<le> 0"
  proof
    fix x assume "x \<in> set (map ?tm [0..<n])"
    then obtain i where i: "i < n" "x = ?tm i" by auto
    have "logistic_3pl_f64 theta (params_a ! i) (params_b ! i) (params_c ! i) \<noteq> NaN"
      using assms(6,7) i(1) by (intro logistic_3pl_f64_not_NaN) simp_all
    moreover have "responses ! i = 0 \<or> responses ! i = 1" using assms(5) i(1) by simp
    ultimately show "\<exists>v. x = Finite v \<and> - 68 \<le> v \<and> v \<le> 0"
      unfolding i(2) by (intro term_range)
  qed
  from sum64_range [OF this] obtain s
    where s: "sum64 (map ?tm [0..<n]) = Finite s" "- (2 ^ 62) \<le> s" "s \<le> 0" by blast
  show ?thesis
    using s(2,3) log_posterior_f64_same_length [OF assms(1-4), of theta]
    by (intro exI [of _ s]) (simp only: s(1) simp_thms)
qed

lemma round_to_grid_half_max: "round_to_grid (- (max_double / 2)) = - (max_double / 2)"
proof -
  have "max_double / 2 = real_of_int (2 ^ 53 - 1) * pow2 970"
    by (simp add: max_double_def pow2_def)
  moreover have "round_to_grid (real_of_int (2 ^ 53 - 1) * pow2 970) = real_of_int (2 ^ 53 - 1) * pow2 970"
    by (rule round_to_grid_fixed) simp_all
  ultimately show ?thesis by (simp only: round_to_grid_uminus)
qed

lemma log_prior_f64_range:
  assumes "theta ^ 2 < overflow_bound"
  shows "\<exists>pr. mul64 (Finite (- (1 / 2))) (mul64 (Finite theta) (Finite theta)) = Finite pr
            \<and> - (max_double / 2) \<le> pr \<and> pr \<le> 0"
proof -
  have "\<bar>theta * theta\<bar> < overflow_bound" using assms by (simp add: power2_eq_square)
  from rnd64_finite_lt [OF this]
  have sq: "mul64 (Finite theta) (Finite theta) = Finite (round_to_grid (theta * theta))"
    and sqb: "\<bar>round_to_grid (theta * theta)\<bar> \<le> max_double" by simp_all
  define sq where "sq = round_to_grid (theta * theta)"
  have sq0: "0 \<le> sq" unfolding sq_def by (rule round_to_grid_nonneg) simp
  have sq1: "sq \<le> max_double" using sqb by (simp add: sq_def)
  have "- (max_double / 2) \<le> - (1 / 2) * sq" using sq1 by simp
  from round_to_grid_mono [OF this]
  have a: "- (max_double / 2) \<le> round_to_grid (- (1 / 2) * sq)"
    by (simp only: round_to_grid_half_max)
  have "- (1 / 2) * sq \<le> 0" using sq0 by simp
  from round_to_grid_mono [OF this] have b: "round_to_grid (- (1 / 2) * sq) \<le> 0" by simp
  have "\<bar>- (1 / 2) * sq\<bar> \<le> max_double" using sq0 sq1 by simp
  from rnd64_finite [OF this]
  have "mul64 (Finite (- (1 / 2))) (Finite sq) = Finite (round_to_grid (- (1 / 2) * sq))" by simp
  then show ?thesis using a b sq unfolding sq_def [symmetric] by simp
qed

lemma abs_less_of_square:
  assumes "theta ^ 2 < overflow_bound"
  shows "\<bar>theta\<bar> < 2 ^ 512"
proof -
  have "overflow_bound < (2 ^ 512) ^ 2" by (simp add: overflow_bound_def)
  with assms have "\<bar>theta\<bar> ^ 2 < (2 ^ 512) ^ 2" by simp
  then show ?thesis by (rule power2_less_imp_less) simp
qed

section \<open>The claims\<close>

subsection \<open>The coherence label\<close>



subsection \<open>The log-posterior\<close>



text \<open>
  Claim C4, as stated for every finite theta, fails in binary64: at \<open>theta = 2 ^ 600\<close>
  the likelihood is finite but the square of theta overflows, the prior is minus
  infinity and so is the result.
\<close>

theorem log_posterior_overflow_counterexample:
  "log_posterior_f64 (2 ^ 600) [1] [1] [0] [3602879701896397 / 2 ^ 54] = Inr NegInf"
proof -
  have ob: "(2::real) ^ 600 < overflow_bound" "(1::real) < overflow_bound"
    by (simp_all add: overflow_bound_def)
  have "\<exists>s. - (2 ^ 62) \<le> s \<and> s \<le> 0
           \<and> log_posterior_f64 (2 ^ 600) [1] [1] [0] [3602879701896397 / 2 ^ 54] =
               Inr (add64 (Finite s)
                      (mul64 (Finite (- (1 / 2))) (mul64 (Finite (2 ^ 600)) (Finite (2 ^ 600)))))"
    using ob by (intro log_likelihood_f64_finite [where n = 1]) simp_all
  then obtain s where s: "log_posterior_f64 (2 ^ 600) [1] [1] [0] [3602879701896397 / 2 ^ 54] =
               Inr (add64 (Finite s)
                      (mul64 (Finite (- (1 / 2))) (mul64 (Finite (2 ^ 600)) (Finite (2 ^ 600)))))"
    by blast
  have "round_to_grid (real_of_int 1 * pow2 1200) = real_of_int 1 * pow2 1200"
    by (rule round_to_grid_fixed) simp_all
  then have "round_to_grid (2 ^ 600 * 2 ^ 600) = 2 ^ 1200"
    by (simp add: pow2_def)
  then have "rnd64 (2 ^ 600 * 2 ^ 600) = PosInf" by (simp add: rnd64_def)
  then have "mul64 (Finite (- (1 / 2))) (mul64 (Finite (2 ^ 600)) (Finite (2 ^ 600))) = NegInf"
    by (simp add: inf_of_sign_def)
  with s show ?thesis by simp
qed

text \<open>
  Claim C4, amended. For every theta whose square does not overflow (it stays below
  \<open>2 ^ 1024 - 2 ^ 970\<close>, so \<open>|theta|\<close> below about \<open>1.34e154\<close>), every binary response
  vector and item parameters of matching length, with arbitrary slopes and with
  difficulties and floors of any finite double magnitude, \<open>log_posterior\<close> returns a
  finite value: the curve is never NaN there, the clip brings it between \<open>1e-10\<close> and
  \<open>1 - 1e-10\<close>, both logarithms are taken of a positive number, and the sum and the
  prior stay finite.
\<close>

theorem log_posterior_f64_finite:
  assumes "length responses = length params_a"
    and "length params_a = length params_b"
    and "length params_b = length params_c"
    and "\<forall>r\<in>set responses. r = 0 \<or> r = 1"
    and "theta ^ 2 < overflow_bound"
    and "\<forall>b\<in>set params_b. \<bar>b\<bar> \<le> max_double"
    and "\<forall>c\<in>set params_c. \<bar>c\<bar> \<le> max_double"
  shows "(\<exists>v. log_posterior_f64 theta responses params_a params_b params_c = Inr (Finite v))
       \<and> (\<forall>P. P \<noteq> NaN \<longrightarrow>
             (\<exists>p. clip64 P clip_lo clip_hi = Finite p \<and> 0 < p \<and> 0 < 1 - p))"
proof
  show "\<forall>P. P \<noteq> NaN \<longrightarrow> (\<exists>p. clip64 P clip_lo clip_hi = Finite p \<and> 0 < p \<and> 0 < 1 - p)"
  proof (intro allI impI)
    fix P :: npfloat assume "P \<noteq> NaN"
    from clip64_range [OF this] obtain p
      where p: "clip64 P clip_lo clip_hi = Finite p" "7737125245533627 / 2 ^ 86 \<le> p"
        "p \<le> 9007199253840272 / 2 ^ 53" by blast
    have "0 < p" using p(2) by simp
    moreover have "0 < 1 - p" using p(3) by simp
    ultimately show "\<exists>p. clip64 P clip_lo clip_hi = Finite p \<and> 0 < p \<and> 0 < 1 - p"
      using p(1) by blast
  qed
next
  define n where "n = length responses"
  have len: "length responses = n" "length params_a = n" "length params_b = n" "length params_c = n"
    using assms(1-3) by (simp_all add: n_def)
  have th: "\<bar>theta\<bar> < 2 ^ 512" using assms(5) by (rule abs_less_of_square)
  have gap: "max_double + 2 ^ 512 < overflow_bound"
    by (simp add: max_double_def overflow_bound_def)
  have r: "\<forall>i<n. responses ! i = 0 \<or> responses ! i = 1"
    using assms(4) len(1) by simp
  have b: "\<forall>i<n. \<bar>theta - params_b ! i\<bar> < overflow_bound"
  proof (intro allI impI)
    fix i assume "i < n"
    then have "\<bar>params_b ! i\<bar> \<le> max_double" using assms(6) len(3) by simp
    with th gap show "\<bar>theta - params_b ! i\<bar> < overflow_bound" by linarith
  qed
  have c: "\<forall>i<n. \<bar>1 - params_c ! i\<bar> < overflow_bound"
  proof (intro allI impI)
    fix i assume "i < n"
    then have "\<bar>params_c ! i\<bar> \<le> max_double" using assms(7) len(4) by simp
    moreover have "(1::real) \<le> 2 ^ 512" by simp
    ultimately show "\<bar>1 - params_c ! i\<bar> < overflow_bound" using gap by linarith
  qed
  from log_likelihood_f64_finite [OF len r b c] obtain s
    where s: "- (2 ^ 62) \<le> s" "s \<le> 0"
      "log_posterior_f64 theta responses params_a params_b params_c =
         Inr (add64 (Finite s) (mul64 (Finite (- (1 / 2))) (mul64 (Finite theta) (Finite theta))))"
    by blast
  from log_prior_f64_range [OF assms(5)] obtain pr
    where pr: "mul64 (Finite (- (1 / 2))) (mul64 (Finite theta) (Finite theta)) = Finite pr"
      "- (max_double / 2) \<le> pr" "pr \<le> 0" by blast
  have "(2::real) ^ 62 \<le> max_double / 2" by (simp add: max_double_def)
  with s(1,2) pr(2,3) have "\<bar>s + pr\<bar> \<le> max_double" by linarith
  from rnd64_finite [OF this] have "add64 (Finite s) (Finite pr) = Finite (round_to_grid (s + pr))"
    by simp
  then show "\<exists>v. log_posterior_f64 theta responses params_a params_b params_c = Inr (Finite v)"
    using s(3) pr(1) by simp
qed

text \<open>Parameters outside their documented ranges: a negative slope and a floor of 2.\<close>

theorem log_posterior_f64_finite_witness:
  "length [1, 0 :: int] = length [- 1, 2 :: real]
   \<and> length [- 1, 2 :: real] = length [0, 1 :: real]
   \<and> length [0, 1 :: real] = length [2, 1 / 4 :: real]
   \<and> (7::real) ^ 2 < overflow_bound
   \<and> (\<exists>v. log_posterior_f64 7 [1, 0] [- 1, 2] [0, 1] [2, 1 / 4] = Inr (Finite v))"
proof -
  have "\<exists>v. log_posterior_f64 7 [1, 0] [- 1, 2] [0, 1] [2, 1 / 4] = Inr (Finite v)"
    using log_posterior_f64_finite [of "[1, 0]" "[- 1, 2]" "[0, 1]" "[2, 1 / 4]" 7]
    by (simp add: overflow_bound_def max_double_def)
  then show ?thesis by (simp add: overflow_bound_def)
qed

subsection \<open>The estimator\<close>

text \<open>
  Claim C3. Whatever the input, when the optimizer returns without having converged
  (its result has \<open>success\<close> false, which is how it reports a numerical failure, a
  non-finite gradient or the iteration cap), \<open>estimate_theta\<close> returns the initial value
  0.0: no error is propagated and the value is finite, whatever \<open>x\<close> the result holds.
\<close>

theorem estimate_theta_fallback:
  assumes "minimize w (objective responses params_a params_b params_c) 0 = (Inr result, w')"
    and "\<not> opt_success result"
  shows "estimate_theta minimize w responses params_a params_b params_c = (Inr (Finite 0), w')"
  using assms by (simp add: estimate_theta_def)

text \<open>An optimizer that always gives up, leaving NaN in \<open>x\<close>.\<close>

theorem estimate_theta_fallback_witness:
  "estimate_theta (\<lambda>w f x0. (Inr \<lparr>opt_x = [NaN], opt_success = False\<rparr>, Suc w)) (0::nat)
     [1, 0] [1, 2] [0, 1] [1 / 5, 1 / 4] = (Inr (Finite 0), 1)"
  using estimate_theta_fallback
    [of "\<lambda>w f x0. (Inr \<lparr>opt_x = [NaN], opt_success = False\<rparr>, Suc w)" "0::nat"
        "[1, 0]" "[1, 2]" "[0, 1]" "[1 / 5, 1 / 4]" "\<lparr>opt_x = [NaN], opt_success = False\<rparr>" 1]
  by simp

subsection \<open>The curve\<close>




text \<open>
  Claim C6, as stated with an exact equality, fails in binary64: with \<open>c\<close> the double
  nearest to 0.2 the curve at \<open>theta = b\<close> is 0.6000000000000001, one unit in the last
  place above the double 0.6 that \<open>(1 + c) / 2\<close> evaluates to.
\<close>

theorem logistic_3pl_at_difficulty_counterexample:
  "logistic_3pl_f64 0 1 0 (3602879701896397 / 2 ^ 54) = Finite (5404319552844596 / 2 ^ 53)
   \<and> div64 (add64 (Finite 1) (Finite (3602879701896397 / 2 ^ 54))) (Finite 2)
       = Finite (5404319552844595 / 2 ^ 53)
   \<and> rnd64 (3602879701896397 / 2 ^ 54) = Finite (3602879701896397 / 2 ^ 54)"
proof -
  have "logistic_3pl_f64 0 1 0 (3602879701896397 / 2 ^ 54) = Finite (5404319552844596 / 2 ^ 53)"
    using logistic_zero_exponent [OF logistic_at_difficulty_exponent [of 1 0]]
    by (simp only: half_value_one_fifth)
  moreover have "div64 (add64 (Finite 1) (Finite (3602879701896397 / 2 ^ 54))) (Finite 2)
       = Finite (5404319552844595 / 2 ^ 53)"
    by (rule float_half_one_fifth)
  ultimately show ?thesis using rnd64_one_fifth by blast
qed

text \<open>
  Claim C6, amended. For every slope, every difficulty and every floor \<open>c\<close> from 0 up to
  1, \<open>logistic_3pl\<close> at an ability equal to the difficulty returns a finite value that is
  \<open>(1 + c) / 2\<close> within floating tolerance: the two differ by at most \<open>2 ^ -51\<close>.
\<close>

theorem logistic_3pl_at_difficulty_tolerance:
  assumes "0 \<le> c" and "c < 1"
  shows "\<exists>v. logistic_3pl_f64 b a b c = Finite v \<and> \<bar>v - (1 + c) / 2\<bar> \<le> 1 / 2 ^ 51"
  using half_value [OF assms]
  by (simp only: logistic_zero_exponent [OF logistic_at_difficulty_exponent])

theorem logistic_3pl_at_difficulty_tolerance_witness:
  "(0::real) \<le> 1 / 5 \<and> (1::real) / 5 < 1
   \<and> (\<exists>v. logistic_3pl_f64 (5 / 4) (3 / 2) (5 / 4) (1 / 5) = Finite v
          \<and> \<bar>v - (1 + 1 / 5) / 2\<bar> \<le> 1 / 2 ^ 51)"
  using logistic_3pl_at_difficulty_tolerance [of "1 / 5" "5 / 4" "3 / 2"] by simp

text \<open>
  Claim C7, as stated, fails in binary64 twice. The value is not the double
  \<open>(1 + c) / 2\<close>: with a slope of 0 and \<open>c\<close> the double nearest to 0.2 it is
  0.6000000000000001 and not 0.6. And it is not the same for every theta: where
  \<open>theta - b\<close> overflows, 0 times infinity is NaN, and so is the curve.
\<close>

theorem logistic_3pl_zero_discrimination_counterexample:
  "logistic_3pl_f64 1 0 0 (3602879701896397 / 2 ^ 54) = Finite (5404319552844596 / 2 ^ 53)
   \<and> div64 (add64 (Finite 1) (Finite (3602879701896397 / 2 ^ 54))) (Finite 2)
       = Finite (5404319552844595 / 2 ^ 53)
   \<and> logistic_3pl_f64 (2 ^ 1023) 0 (- (2 ^ 1023)) (3602879701896397 / 2 ^ 54) = NaN"
proof -
  have "mul64 (Finite (- 0)) (sub64 (Finite 1) (Finite 0)) = Finite 0" by simp
  from logistic_zero_exponent [OF this]
  have "logistic_3pl_f64 1 0 0 (3602879701896397 / 2 ^ 54) = Finite (5404319552844596 / 2 ^ 53)"
    by (simp only: half_value_one_fifth)
  moreover have "div64 (add64 (Finite 1) (Finite (3602879701896397 / 2 ^ 54))) (Finite 2)
       = Finite (5404319552844595 / 2 ^ 53)"
    by (rule float_half_one_fifth)
  moreover have "sub64 (Finite (2 ^ 1023)) (Finite (- (2 ^ 1023))) = PosInf"
    using rnd64_overflow_pow by (simp add: sub64_def)
  then have "logistic_3pl_f64 (2 ^ 1023) 0 (- (2 ^ 1023)) (3602879701896397 / 2 ^ 54) = NaN"
    by (simp add: logistic_3pl_f64_def inf_of_sign_def del: sub64_Finite)
  ultimately show ?thesis by blast
qed

text \<open>
  Claim C7, amended. With a slope of 0, for every theta and difficulty whose difference
  does not overflow and every floor \<open>c\<close> from 0 up to 1, \<open>logistic_3pl\<close> returns one and
  the same finite value, whatever theta and the difficulty are, and that value is
  \<open>(1 + c) / 2\<close> within floating tolerance (at most \<open>2 ^ -51\<close> away). Nothing is raised:
  the function has no failing branch.
\<close>

theorem logistic_3pl_zero_discrimination_tolerance:
  assumes "0 \<le> c" and "c < 1" and "\<bar>theta - b\<bar> < overflow_bound"
  shows "logistic_3pl_f64 theta 0 b c = logistic_3pl_f64 0 0 0 c
       \<and> (\<exists>v. logistic_3pl_f64 theta 0 b c = Finite v \<and> \<bar>v - (1 + c) / 2\<bar> \<le> 1 / 2 ^ 51)"
proof -
  have "mul64 (Finite (- 0)) (sub64 (Finite 0) (Finite 0)) = Finite 0" by simp
  from logistic_zero_exponent [OF this]
  have z: "logistic_3pl_f64 0 0 0 c =
             add64 (Finite c) (div64 (sub64 (Finite 1) (Finite c)) (Finite 2))" .
  from logistic_zero_exponent [OF logistic_zero_slope_exponent [OF assms(3)]]
  have t: "logistic_3pl_f64 theta 0 b c =
             add64 (Finite c) (div64 (sub64 (Finite 1) (Finite c)) (Finite 2))" .
  from half_value [OF assms(1,2)] show ?thesis by (simp only: z t simp_thms)
qed

theorem logistic_3pl_zero_discrimination_tolerance_witness:
  "(0::real) \<le> 1 / 4 \<and> (1::real) / 4 < 1 \<and> \<bar>(3::real) - 1\<bar> < overflow_bound
   \<and> logistic_3pl_f64 3 0 1 (1 / 4) = logistic_3pl_f64 0 0 0 (1 / 4)
   \<and> (\<exists>v. logistic_3pl_f64 3 0 1 (1 / 4) = Finite v \<and> \<bar>v - (1 + 1 / 4) / 2\<bar> \<le> 1 / 2 ^ 51)"
proof -
  have h: "(0::real) \<le> 1 / 4" "(1::real) / 4 < 1" "\<bar>(3::real) - 1\<bar> < overflow_bound"
    by (simp_all add: overflow_bound_def)
  from logistic_3pl_zero_discrimination_tolerance [OF h] h show ?thesis by blast
qed

subsection \<open>The score\<close>

text \<open>
  Claim C8, as stated, fails in binary64 on its last part: with the default constants
  the finite theta \<open>2 ^ 1020\<close> (about \<open>1.1e307\<close>) gives an infinite score, the product
  \<open>100 * theta\<close> overflowing.
\<close>

theorem to_enem_score_overflow_counterexample:
  "to_enem_score TRIEngine_default (2 ^ 1020) = PosInf
   \<and> rnd64 (2 ^ 1020) = Finite (2 ^ 1020)"
proof -
  have "round_to_grid (real_of_int 100 * pow2 1020) = real_of_int 100 * pow2 1020"
    by (rule round_to_grid_fixed) simp_all
  then have "round_to_grid (100 * 2 ^ 1020) = 100 * 2 ^ 1020" by (simp add: pow2_def)
  then have "rnd64 (100 * 2 ^ 1020) = PosInf" by (simp add: rnd64_def)
  then have "to_enem_score TRIEngine_default (2 ^ 1020) = PosInf"
    by (simp add: to_enem_score_def TRIEngine_default_def TRIEngine_init_def)
  moreover have "rnd64 (2 ^ 1020) = Finite (2 ^ 1020)"
    using rnd64_fixed [of 1 1020] by (simp add: pow2_def)
  ultimately show ?thesis ..
qed

text \<open>
  Claim C8, amended. With the constants given at construction, 500 and 100 by default,
  \<open>to_enem_score\<close> returns \<open>mean_scale + std_scale * theta\<close> as binary64 computes it,
  the product rounded and then the sum: whenever \<open>|mean_scale| + |std_scale * theta|\<close> is
  at most \<open>2 ^ 1023\<close> the result is finite and differs from the affine function
  \<open>mean_scale + std_scale * theta\<close> by at most \<open>2 ^ -51\<close> of that magnitude (plus
  \<open>2 ^ -1073\<close>); at theta 0 it returns \<open>mean_scale\<close> rounded, which is 500 for the
  default constants. It is not finite for every finite theta.
\<close>

theorem to_enem_score_rounded_affine:
  assumes "\<bar>m\<bar> + \<bar>s * theta\<bar> \<le> 2 ^ 1023"
  shows "(\<exists>v. to_enem_score (TRIEngine_init m s) theta = Finite v
            \<and> \<bar>v - (m + s * theta)\<bar> \<le> (\<bar>m\<bar> + \<bar>s * theta\<bar>) / 2 ^ 51 + 1 / 2 ^ 1073)
       \<and> to_enem_score (TRIEngine_init m s) 0 = rnd64 m
       \<and> TRIEngine_default = TRIEngine_init 500 100
       \<and> to_enem_score TRIEngine_default 0 = Finite 500"
  using to_enem_score_value [OF assms] to_enem_score_zero [of "TRIEngine_init m s"]
    to_enem_score_default_zero
  by (simp add: TRIEngine_init_def TRIEngine_default_def)

theorem to_enem_score_rounded_affine_witness:
  "\<bar>500 :: real\<bar> + \<bar>100 * (13 / 4)\<bar> \<le> 2 ^ 1023
   \<and> (\<exists>v. to_enem_score (TRIEngine_init 500 100) (13 / 4) = Finite v
          \<and> \<bar>v - (500 + 100 * (13 / 4))\<bar> \<le> (\<bar>500\<bar> + \<bar>100 * (13 / 4)\<bar>) / 2 ^ 51 + 1 / 2 ^ 1073)"
proof -
  have h: "\<bar>500 :: real\<bar> + \<bar>100 * (13 / 4)\<bar> \<le> 2 ^ 1023" by simp
  from to_enem_score_rounded_affine [OF h] h show ?thesis by blast
qed

subsection \<open>The sorting step\<close>

text \<open>
  Claim C10, as stated for every response vector and difficulty vector, fails when the
  difficulty vector is the longer one: the sorting step indexes the responses with the
  indices of the difficulties and raises IndexError, where the function without the
  sorting step returns a record.
\<close>

theorem analyze_consistency_sort_counterexample:
  "analyze_consistency 0 [1] [0, 0] = Inl IndexError
   \<and> analyze_consistency_unsorted 0 [1] [0, 0] =
       Inr \<lparr>total_acertos = 1, theta_estimado = 0, coerencia = ''Alta''\<rparr>"
  by (simp add: analyze_consistency_def analyze_consistency_unsorted_def np_argsort_def
      np_take_def check_coherence_def np_any_def py_round_def round_half_even_def)

text \<open>
  Claim C10, amended. For every theta and every response vector at least as long as the
  difficulty vector (so for vectors of equal length, the invariant of the data model),
  \<open>analyze_consistency\<close> returns exactly what the function without the sorting step
  returns: the same record, or the same error.
\<close>

theorem analyze_consistency_sort_irrelevant:
  assumes "length params_b \<le> length responses"
  shows "analyze_consistency theta responses params_b =
           analyze_consistency_unsorted theta responses params_b"
  unfolding analyze_consistency_def analyze_consistency_unsorted_def
  using assms by (simp add: np_take_argsort Let_def)

text \<open>The first scenario of the specification, with the difficulties out of order.\<close>

theorem analyze_consistency_sort_irrelevant_witness:
  "length [2, - 1, 0, 1, - 2 :: real] \<le> length [0, 1, 1, 0, 1 :: int]
   \<and> analyze_consistency 0 [0, 1, 1, 0, 1] [2, - 1, 0, 1, - 2] =
       Inr \<lparr>total_acertos = 3, theta_estimado = 0, coerencia = ''Alta''\<rparr>
   \<and> analyze_consistency_unsorted 0 [0, 1, 1, 0, 1] [2, - 1, 0, 1, - 2] =
       Inr \<lparr>total_acertos = 3, theta_estimado = 0, coerencia = ''Alta''\<rparr>"
  using analyze_consistency_sort_irrelevant [of "[2, - 1, 0, 1, - 2]" "[0, 1, 1, 0, 1]" 0]
  by (simp add: analyze_consistency_unsorted_def check_coherence_def np_any_def np_mask_def
      np_mean_def py_round_def round_half_even_def)

end
